theory Spec2Isabelle
  imports Complex_Main "HOL-Library.Word" "HOL-Library.AList"
begin

section \<open>JavaScript strings\<close>

text \<open>
  A JavaScript string is a sequence of UTF-16 code units.  The regular expressions of the
  source carry no \<open>u\<close> flag, and \<open>length\<close>, \<open>trim\<close>, \<open>split\<close> and \<open>endsWith\<close> all
  work on code units, so a string is a list of 16-bit words.  \<open>js\<close> embeds an ASCII
  literal.
\<close>

type_synonym jschar = "16 word"
type_synonym jsstring = "jschar list"

definition js :: "string \<Rightarrow> jsstring" where
  "js s = map (\<lambda>c. of_nat (of_char c)) s"

text \<open>
  The code units that ECMAScript calls WhiteSpace or LineTerminator.  Both
  \<open>String.prototype.trim\<close> and the regular-expression class \<open>\s\<close> use exactly this set.
\<close>

definition isWhiteSpace :: "jschar \<Rightarrow> bool" where
  "isWhiteSpace c \<longleftrightarrow>
     c = 0x09 \<or> c = 0x0A \<or> c = 0x0B \<or> c = 0x0C \<or> c = 0x0D \<or> c = 0x20 \<or> c = 0xA0 \<or>
     c = 0x1680 \<or> (0x2000 \<le> c \<and> c \<le> 0x200A) \<or> c = 0x2028 \<or> c = 0x2029 \<or>
     c = 0x202F \<or> c = 0x205F \<or> c = 0x3000 \<or> c = 0xFEFF"

definition trim :: "jsstring \<Rightarrow> jsstring" where
  "trim s = rev (dropWhile isWhiteSpace (rev (dropWhile isWhiteSpace s)))"

text \<open>\<open>s.split(c)\<close> for a one-character separator: never the empty list.\<close>

fun split :: "'a \<Rightarrow> 'a list \<Rightarrow> 'a list list" where
  "split c [] = [[]]"
| "split c (x # xs) =
     (if x = c then [] # split c xs
      else (case split c xs of [] \<Rightarrow> [[x]] | p # ps \<Rightarrow> (x # p) # ps))"

text \<open>\<open>parts.join(sep)\<close>.\<close>

fun join :: "'a list \<Rightarrow> 'a list list \<Rightarrow> 'a list" where
  "join sep [] = []"
| "join sep [p] = p"
| "join sep (p # q # ps) = p @ sep @ join sep (q # ps)"

definition startsWith :: "'a list \<Rightarrow> 'a list \<Rightarrow> bool" where
  "startsWith s p \<longleftrightarrow> take (length p) s = p"

definition endsWith :: "'a list \<Rightarrow> 'a list \<Rightarrow> bool" where
  "endsWith s p \<longleftrightarrow> length p \<le> length s \<and> drop (length s - length p) s = p"

text \<open>\<open>s.indexOf(p)\<close>: the first position where \<open>p\<close> occurs, \<open>None\<close> for \<open>-1\<close>.\<close>

fun indexOf :: "'a list \<Rightarrow> 'a list \<Rightarrow> nat option" where
  "indexOf [] p = (if p = [] then Some 0 else None)"
| "indexOf (x # xs) p =
     (if startsWith (x # xs) p then Some 0
      else map_option Suc (indexOf xs p))"

definition includes_str :: "'a list \<Rightarrow> 'a list \<Rightarrow> bool" where
  "includes_str s p \<longleftrightarrow> indexOf s p \<noteq> None"

text \<open>\<open>xs.filter(Boolean)\<close> on an array of strings keeps the non-empty ones.\<close>

definition filterBoolean :: "'a list list \<Rightarrow> 'a list list" where
  "filterBoolean ps = filter (\<lambda>p. p \<noteq> []) ps"


section \<open>Data model (base-fleet-manager.ts)\<close>

datatype operation = set_op | increment | decrement

datatype agent_type = orchestrator | warehouse | retail | fulfillment

record InventoryUpdate =
  u_sku :: jsstring
  quantity :: int
  operation :: operation
  timestamp :: jsstring
  location :: jsstring

record InventoryItem =
  sku :: jsstring
  name :: jsstring
  currentStock :: int
  lowStockThreshold :: int
  lastUpdated :: jsstring

datatype message_type = direct | broadcast | system

record StoredMessage =
  msg_id :: jsstring
  msg_timestamp :: jsstring
  from_agent :: jsstring
  to_agent :: "jsstring option"
  content :: jsstring
  message_type :: message_type

datatype urgency = low | medium | high | critical

text \<open>
  The frames of \<open>FleetMessage\<close> that the modelled operations send.  The two
  notices of the reorder analysis are \<open>message\<close> frames whose text is a template over the
  analysis; they keep the template's arguments.
\<close>

datatype frame =
    StateFrame int "jsstring list"
  | ErrorFrame jsstring
  | AgentCreated jsstring
  | AgentDeleted jsstring
  | MessageFrame jsstring jsstring
  | StockUpdateFrame jsstring int operation
  | LowStockAlertFrame jsstring int int jsstring
  | ChatStatsFrame nat nat real
  | ApprovalNeededMessage int urgency jsstring
  | AutoReorderMessage int jsstring urgency

text \<open>
  A subscription: the server side of a WebSocket.  \<open>readyState\<close> is the socket's state
  (1 is OPEN); \<open>send_throws\<close> says whether \<open>ws.send\<close> raises on this socket.
\<close>

record websocket =
  ws_id :: nat
  readyState :: nat
  send_throws :: bool

datatype effect = Send nat frame | Close nat

record FleetState =
  counter :: int
  agents :: "jsstring list"
  websockets :: "websocket list"
  messages :: "StoredMessage list"
  inventory :: "(jsstring \<times> InventoryItem) list"
  agentType :: agent_type

text \<open>
  \<open>Set<string>\<close> and \<open>Map<string, InventoryItem>\<close> keep insertion order: the set is a
  list without duplicates, the map an association list (\<open>map_of\<close> is \<open>get\<close>,
  \<open>AList.update\<close> is \<open>set\<close>).
\<close>

definition set_add :: "'a \<Rightarrow> 'a list \<Rightarrow> 'a list" where
  "set_add x xs = (if x \<in> set xs then xs else xs @ [x])"

definition set_delete :: "'a \<Rightarrow> 'a list \<Rightarrow> 'a list" where
  "set_delete x xs = removeAll x xs"

text \<open>\<open>new Set(array)\<close>: the first occurrence of each element, in order.\<close>

definition new_Set :: "'a list \<Rightarrow> 'a list" where
  "new_Set xs = rev (remdups (rev xs))"


section \<open>The embedded SQL store\<close>

text \<open>
  Modelled from the spec: the embedded SQL store behind \<open>SqlStorage.exec\<close>, a binding of
  the runtime whose code is not part of the repository.  Each table of schema v1 that the
  modelled operations touch is the list of its rows in insertion order; a statement has
  the effect that its SQL text describes, provided that the call binds its placeholders
  (\<open>exec_accepts\<close> below).
  The \<open>agents\<close> column holds the JSON text of a string array and is modelled by that
  array.
\<close>

record fleet_state_row =
  fs_id :: jsstring
  fs_counter :: int
  fs_agents :: "jsstring list"
  fs_agent_type :: agent_type
  fs_created_at :: int
  fs_updated_at :: int

record inventory_items_row =
  ii_sku :: jsstring
  ii_name :: jsstring
  ii_current_stock :: int
  ii_low_stock_threshold :: int
  ii_location :: jsstring
  ii_created_at :: int
  ii_updated_at :: int

record inventory_transactions_row =
  it_sku :: jsstring
  it_operation :: operation
  it_quantity :: int
  it_location :: jsstring
  it_timestamp :: jsstring

record InventoryInsights =
  shouldReorder :: bool
  reorderQuantity :: int
  ins_urgency :: urgency
  leadTimeMs :: int
  reasoning :: jsstring
  confidence :: real

record inventory_analysis_row =
  ia_sku :: jsstring
  ia_location :: jsstring
  ia_analysis :: InventoryInsights
  ia_timestamp :: jsstring

record inventory_decisions_row =
  id_sku :: jsstring
  id_location :: jsstring
  id_decision_type :: jsstring
  id_reasoning :: jsstring
  id_timestamp :: jsstring

record chat_statistics_row =
  cs_location :: jsstring
  cs_date :: jsstring
  cs_messages_today :: nat
  cs_actions_executed :: nat
  cs_successful_actions :: nat
  cs_success_rate :: real

record db =
  fleet_state :: "fleet_state_row list"
  inventory_items :: "inventory_items_row list"
  inventory_transactions :: "inventory_transactions_row list"
  inventory_analysis :: "inventory_analysis_row list"
  inventory_decisions :: "inventory_decisions_row list"
  chat_statistics :: "chat_statistics_row list"

definition empty_db :: db where
  "empty_db = \<lparr>fleet_state = [], inventory_items = [], inventory_transactions = [],
     inventory_analysis = [], inventory_decisions = [], chat_statistics = []\<rparr>"

text \<open>\<open>INSERT OR REPLACE\<close>: the row with the same key is deleted, the new row appended.\<close>

definition insert_or_replace :: "('r \<Rightarrow> 'k) \<Rightarrow> 'r \<Rightarrow> 'r list \<Rightarrow> 'r list" where
  "insert_or_replace key r rows = filter (\<lambda>x. key x \<noteq> key r) rows @ [r]"

text \<open>\<open>result.toArray()[0]\<close>: the first row, \<open>undefined\<close> when there is none.\<close>

definition first_row :: "'r list \<Rightarrow> 'r option" where
  "first_row rows = (case rows of [] \<Rightarrow> None | r # _ \<Rightarrow> Some r)"

text \<open>
  \<open>exec(query, ...bindings)\<close> of the runtime takes the values for the placeholders of the
  statement as separate arguments, and raises, executing nothing, unless it is given as
  many values as the statement has placeholders.  An array passed as the one argument
  after the query is one value.  \<open>saveState\<close>, \<open>loadStateFromStorage\<close> and \<open>createAgent\<close>
  pass one argument for each placeholder; \<open>processStockUpdate\<close>, \<open>processLowStockAlert\<close>
  and \<open>saveChatStatistics\<close> pass one array.
\<close>

definition exec_accepts :: "nat \<Rightarrow> nat \<Rightarrow> bool" where
  "exec_accepts placeholders bindings \<longleftrightarrow> bindings = placeholders"


section \<open>BaseFleetManager (base-fleet-manager.ts)\<close>

datatype zod_issue = too_small | too_big | invalid_string

record InventoryError =
  code :: jsstring
  message :: jsstring
  statusCode :: nat
  details :: "zod_issue list"

text \<open>The character class \<open>[a-zA-Z0-9\s_-]\<close> of \<open>AgentNameSchema\<close>.\<close>

definition agent_name_char :: "jschar \<Rightarrow> bool" where
  "agent_name_char c \<longleftrightarrow>
     (0x61 \<le> c \<and> c \<le> 0x7A) \<or> (0x41 \<le> c \<and> c \<le> 0x5A) \<or> (0x30 \<le> c \<and> c \<le> 0x39) \<or>
     isWhiteSpace c \<or> c = 0x5F \<or> c = 0x2D"

text \<open>\<open>/^[a-zA-Z0-9\s_-]+$/.test(s)\<close>: one or more characters, all of the class.\<close>

definition agent_name_regex :: "jsstring \<Rightarrow> bool" where
  "agent_name_regex s \<longleftrightarrow> s \<noteq> [] \<and> list_all agent_name_char s"

text \<open>
  \<open>AgentNameSchema.parse\<close>: zod runs the three checks \<open>min(1)\<close>, \<open>max(32)\<close> and
  \<open>regex\<close>, collects their issues and throws a \<open>ZodError\<close> when there is one.
\<close>

definition AgentNameSchema :: "jsstring \<Rightarrow> zod_issue list + jsstring" where
  "AgentNameSchema s =
     (let issues = (if length s < 1 then [too_small] else []) @
                   (if length s > 32 then [too_big] else []) @
                   (if agent_name_regex s then [] else [invalid_string])
      in if issues = [] then Inr s else Inl issues)"

text \<open>\<open>validateInput\<close>: a \<open>ZodError\<close> becomes an \<open>InventoryError\<close> with status 400.\<close>

definition validateInput :: "('a \<Rightarrow> zod_issue list + 'b) \<Rightarrow> 'a \<Rightarrow> InventoryError + 'b" where
  "validateInput schema d =
     (case schema d of
        Inr v \<Rightarrow> Inr v
      | Inl issues \<Rightarrow>
          Inl \<lparr>code = js ''VALIDATION_ERROR'', message = js ''Invalid input'',
               statusCode = 400, details = issues\<rparr>)"

text \<open>
  The chat counters of \<open>InventoryAgent\<close>.  \<open>successRate\<close> is a JavaScript number; the
  model computes it in the reals.
\<close>

record ChatStats =
  messagesToday :: nat
  actionsExecuted :: nat
  successfulActions :: nat
  successRate :: real

text \<open>
  An agent instance: the fields of \<open>BaseFleetManager\<close> together with those that
  \<open>InventoryAgent\<close> adds (\<open>tenantId\<close>, \<open>chatStats\<close>).  The cache is represented by the
  keys it holds.
\<close>

record agent =
  state :: FleetState
  currentPath :: jsstring
  stateLoaded :: bool
  initializationComplete :: bool
  cache :: "jsstring list"
  tenantId :: jsstring
  chatStats :: ChatStats

text \<open>The field initialisers and constructor assignments of a new instance.\<close>

definition new_agent :: agent where
  "new_agent =
     \<lparr>state = \<lparr>counter = 0, agents = [], websockets = [], messages = [],
                inventory = [], agentType = orchestrator\<rparr>,
      currentPath = js ''/'',
      stateLoaded = False,
      initializationComplete = False,
      cache = [],
      tenantId = js ''demo'',
      chatStats = \<lparr>messagesToday = 0, actionsExecuted = 0, successfulActions = 0,
                   successRate = 0\<rparr>\<rparr>"

text \<open>\<open>x || d\<close> on a number: \<open>0\<close> is falsy.\<close>

definition or_default :: "int \<Rightarrow> int \<Rightarrow> int" where
  "or_default x d = (if x = 0 then d else x)"

text \<open>The body of the loop over \<open>inventoryRows\<close>; \<open>now\<close> is \<open>new Date().toISOString()\<close>.\<close>

definition restore_item ::
  "jsstring \<Rightarrow> inventory_items_row \<Rightarrow> (jsstring \<times> InventoryItem) list \<Rightarrow> (jsstring \<times> InventoryItem) list" where
  "restore_item now row m =
     (let item = \<lparr>sku = ii_sku row, name = ii_name row, currentStock = ii_current_stock row,
                  lowStockThreshold = ii_low_stock_threshold row, lastUpdated = now\<rparr>
      in AList.update (sku item) item m)"

definition loadStateFromStorage :: "jsstring \<Rightarrow> db \<Rightarrow> agent \<Rightarrow> agent" where
  "loadStateFromStorage now d a =
     (let stateRow = first_row (filter (\<lambda>r. fs_id r = currentPath a) (fleet_state d));
          st1 = (case stateRow of
                   Some r \<Rightarrow> (state a)\<lparr>counter := or_default (fs_counter r) 0,
                                        agentType := fs_agent_type r,
                                        agents := new_Set (fs_agents r)\<rparr>
                 | None \<Rightarrow> state a);
          inventoryRows = filter (\<lambda>r. ii_location r = currentPath a) (inventory_items d);
          st2 = st1\<lparr>inventory := fold (restore_item now) inventoryRows (inventory st1)\<rparr>
      in a\<lparr>state := st2, stateLoaded := True\<rparr>)"

text \<open>The body of the loop over the inventory in \<open>saveState\<close>; \<open>ts\<close> is the clock in seconds.\<close>

definition save_item :: "int \<Rightarrow> jsstring \<Rightarrow> (jsstring \<times> InventoryItem) \<Rightarrow> db \<Rightarrow> db" where
  "save_item ts path entry d =
     (let item = snd entry
      in d\<lparr>inventory_items :=
             insert_or_replace ii_sku
               \<lparr>ii_sku = sku item, ii_name = name item, ii_current_stock = currentStock item,
                ii_low_stock_threshold = lowStockThreshold item, ii_location = path,
                ii_created_at = ts, ii_updated_at = ts\<rparr>
               (inventory_items d)\<rparr>)"

definition saveState :: "int \<Rightarrow> db \<Rightarrow> agent \<Rightarrow> db" where
  "saveState ts d a =
     (let d1 = d\<lparr>fleet_state :=
                   insert_or_replace fs_id
                     \<lparr>fs_id = currentPath a, fs_counter = counter (state a),
                      fs_agents = agents (state a), fs_agent_type = agentType (state a),
                      fs_created_at = ts, fs_updated_at = ts\<rparr>
                     (fleet_state d)\<rparr>
      in fold (save_item ts (currentPath a)) (inventory (state a)) d1)"

text \<open>
  \<open>sendToWebSocket\<close>: an open socket gets the frame; a socket whose \<open>send\<close> raises is
  dropped from the subscriptions.
\<close>

definition sendToWebSocket :: "websocket \<Rightarrow> frame \<Rightarrow> agent \<Rightarrow> agent \<times> effect list" where
  "sendToWebSocket ws f a =
     (if readyState ws = 1 then
        (if send_throws ws
         then (a\<lparr>state := (state a)\<lparr>websockets := set_delete ws (websockets (state a))\<rparr>\<rparr>, [])
         else (a, [Send (ws_id ws) f]))
      else (a, []))"

fun send_all :: "frame \<Rightarrow> websocket list \<Rightarrow> agent \<Rightarrow> agent \<times> effect list" where
  "send_all f [] a = (a, [])"
| "send_all f (ws # wss) a =
     (let (a1, e1) = sendToWebSocket ws f a;
          (a2, e2) = send_all f wss a1
      in (a2, e1 @ e2))"

definition broadcastToWebSockets :: "frame \<Rightarrow> agent \<Rightarrow> agent \<times> effect list" where
  "broadcastToWebSockets f a = send_all f (websockets (state a)) a"

definition broadcastState :: "agent \<Rightarrow> agent \<times> effect list" where
  "broadcastState a =
     (if \<not> initializationComplete a then (a, [])
      else broadcastToWebSockets (StateFrame (counter (state a)) (agents (state a))) a)"


section \<open>InventoryService (inventory-service.ts)\<close>

text \<open>
  What the external collaborators answer during one stock update: the analysis that
  \<open>AIService.analyzeInventoryTrends\<close> returns (it has a fallback and never raises), and
  whether dispatching the reorder workflow and its audit record goes through.
\<close>

record collaborators =
  ai_insights :: InventoryInsights
  dispatch_ok :: bool

text \<open>
  \<open>processLowStockAlert\<close>: results in the frames passed to \<open>broadcastCallback\<close>.
  The whole body is one \<open>try\<close> block whose \<open>catch\<close> only logs, so whatever raises
  inside skips the rest of it: the insert into \<open>inventory_analysis\<close>, which has five
  placeholders and is given one array, and a failed dispatch.
\<close>

definition processLowStockAlert ::
  "collaborators \<Rightarrow> jsstring \<Rightarrow> jsstring \<Rightarrow> InventoryItem \<Rightarrow> jsstring \<Rightarrow> db \<Rightarrow> db \<times> frame list" where
  "processLowStockAlert env now k item loc d =
     (let insights = ai_insights env
      in if exec_accepts 5 1 then
           (let d1 = d\<lparr>inventory_analysis := inventory_analysis d @
                       [\<lparr>ia_sku = k, ia_location = loc, ia_analysis = insights,
                         ia_timestamp = now\<rparr>]\<rparr>;
                decision = \<lparr>id_sku = k, id_location = loc,
                            id_decision_type = js ''reorder_analysis'',
                            id_reasoning = reasoning insights, id_timestamp = now\<rparr>;
                d2 = (if exec_accepts 5 1
                      then d1\<lparr>inventory_decisions := inventory_decisions d1 @ [decision]\<rparr>
                      else d1)
            in if shouldReorder insights then
                 (let approval =
                        (if ins_urgency insights = critical \<or> reorderQuantity insights > 1000
                         then [ApprovalNeededMessage (reorderQuantity insights)
                                 (ins_urgency insights) (reasoning insights)]
                         else [])
                  in if dispatch_ok env
                     then (d2, approval @
                            [AutoReorderMessage (reorderQuantity insights) k (ins_urgency insights)])
                     else (d1, approval))
               else (d2, []))
         else (d, []))"

text \<open>
  \<open>InventoryService.processStockUpdate\<close>.  \<open>now\<close> is the clock of the call.  The insert
  into \<open>inventory_transactions\<close> has five placeholders and is given one array, inside a
  \<open>try\<close> whose \<open>catch\<close> only logs.  Storing the product embedding is a call to the
  vector store inside its own \<open>try\<close>; it changes nothing here.  The result is the
  inventory, the store and the frames passed to \<open>broadcastCallback\<close>, in order.
\<close>

definition processStockUpdate ::
  "collaborators \<Rightarrow> jsstring \<Rightarrow> InventoryUpdate \<Rightarrow> jsstring \<Rightarrow> db \<Rightarrow>
     (jsstring \<times> InventoryItem) list \<Rightarrow> (jsstring \<times> InventoryItem) list \<times> db \<times> frame list" where
  "processStockUpdate env now upd loc d m =
     (let k = u_sku upd;
          q = quantity upd;
          item0 = (case map_of m k of
                     Some i \<Rightarrow> i
                   | None \<Rightarrow> \<lparr>sku = k, name = js ''Product '' @ k, currentStock = 0,
                              lowStockThreshold = 10, lastUpdated = now\<rparr>);
          item1 = (case operation upd of
                     set_op \<Rightarrow> item0\<lparr>currentStock := q\<rparr>
                   | increment \<Rightarrow> item0\<lparr>currentStock := currentStock item0 + q\<rparr>
                   | decrement \<Rightarrow> item0\<lparr>currentStock := max 0 (currentStock item0 - q)\<rparr>);
          item2 = item1\<lparr>lastUpdated := now\<rparr>;
          m' = AList.update k item2 m;
          d1 = (if exec_accepts 5 1
                then d\<lparr>inventory_transactions := inventory_transactions d @
                       [\<lparr>it_sku = k, it_operation = operation upd, it_quantity = q,
                         it_location = loc, it_timestamp = now\<rparr>]\<rparr>
                else d);
          (d2, alert) =
             (if currentStock item2 \<le> lowStockThreshold item2 then
                (let (d', fs) = processLowStockAlert env now k item2 loc d1
                 in (d', LowStockAlertFrame k (currentStock item2) (lowStockThreshold item2) loc # fs))
              else (d1, []))
      in (m', d2, alert @ [StockUpdateFrame k (currentStock item2) set_op]))"


section \<open>InventoryAgent (fleet-manager.ts)\<close>

fun broadcast_all :: "frame list \<Rightarrow> agent \<Rightarrow> agent \<times> effect list" where
  "broadcast_all [] a = (a, [])"
| "broadcast_all (f # fs) a =
     (let (a1, e1) = broadcastToWebSockets f a;
          (a2, e2) = broadcast_all fs a1
      in (a2, e1 @ e2))"

text \<open>
  \<open>InventoryAgent.processStockUpdate\<close>: the service call with this agent's inventory and
  \<open>broadcastToWebSockets\<close> as callback, then \<open>saveState\<close>.  The propagation to the parent
  is a peer call inside its own \<open>try\<close>; it changes nothing here.  \<open>ts\<close> is the clock in
  seconds.
\<close>

definition agent_processStockUpdate ::
  "collaborators \<Rightarrow> jsstring \<Rightarrow> int \<Rightarrow> InventoryUpdate \<Rightarrow> db \<Rightarrow> agent \<Rightarrow> agent \<times> db \<times> effect list" where
  "agent_processStockUpdate env now ts upd d a =
     (let inventoryUpdate = upd\<lparr>timestamp := now, location := currentPath a\<rparr>;
          (m', d1, frames) =
             processStockUpdate env now inventoryUpdate (currentPath a) d (inventory (state a));
          a1 = a\<lparr>state := (state a)\<lparr>inventory := m'\<rparr>\<rparr>;
          (a2, es) = broadcast_all frames a1;
          d2 = saveState ts d1 a2
      in (a2, d2, es))"

text \<open>
  One iteration of \<open>processInventorySync\<close>: an update of the batch with what the
  collaborators and the clock answer while it runs.
\<close>

record stock_call =
  call_env :: collaborators
  call_now :: jsstring
  call_ts :: int
  call_update :: InventoryUpdate

fun processInventorySync :: "stock_call list \<Rightarrow> db \<Rightarrow> agent \<Rightarrow> agent \<times> db \<times> effect list" where
  "processInventorySync [] d a = (a, d, [])"
| "processInventorySync (c # cs) d a =
     (let (a1, d1, e1) = agent_processStockUpdate (call_env c) (call_now c) (call_ts c)
                           (call_update c) d a;
          (a2, d2, e2) = processInventorySync cs d1 a1
      in (a2, d2, e1 @ e2))"

text \<open>The \<open>try\<close> block of \<open>createAgent\<close>; \<open>Inl\<close> is the \<open>InventoryError\<close> it throws.\<close>

definition createAgent_try ::
  "jsstring \<Rightarrow> int \<Rightarrow> db \<Rightarrow> agent \<Rightarrow> InventoryError + (agent \<times> db \<times> effect list)" where
  "createAgent_try nm ts d a =
     (case validateInput AgentNameSchema (trim nm) of
        Inl err \<Rightarrow> Inl err
      | Inr trimmedName \<Rightarrow>
          if trimmedName \<in> set (agents (state a)) then
            Inl \<lparr>code = js ''AGENT_EXISTS'',
                 message = js ''Agent '' @ [0x22] @ trimmedName @ [0x22] @ js '' already exists'',
                 statusCode = 409, details = []\<rparr>
          else
            (let a1 = a\<lparr>state := (state a)\<lparr>agents := set_add trimmedName (agents (state a))\<rparr>\<rparr>;
                 d1 = saveState ts d a1;
                 a2 = a1\<lparr>cache := set_delete (js ''loaded:'' @ currentPath a1)
                                  (set_delete (js ''state:'' @ currentPath a1) (cache a1))\<rparr>;
                 (a3, e1) = broadcastToWebSockets (AgentCreated trimmedName) a2;
                 (a4, e2) = broadcastState a3
             in Inr (a4, d1, e1 @ e2)))"

text \<open>\<open>createAgent\<close>: the \<open>catch\<close> branch broadcasts the error's message.\<close>

definition createAgent :: "jsstring \<Rightarrow> int \<Rightarrow> db \<Rightarrow> agent \<Rightarrow> agent \<times> db \<times> effect list" where
  "createAgent nm ts d a =
     (case createAgent_try nm ts d a of
        Inr r \<Rightarrow> r
      | Inl err \<Rightarrow>
          (let (a1, es) = broadcastToWebSockets (ErrorFrame (message err)) a
           in (a1, d, es)))"

text \<open>
  How the cascade of \<open>deleteAgent\<close> ends: the child answered (with a status), or
  building the child's address or the call itself raised.
\<close>

datatype rpc_result = Responded nat | Raised

definition deleteAgent ::
  "jsstring \<Rightarrow> rpc_result \<Rightarrow> int \<Rightarrow> db \<Rightarrow> agent \<Rightarrow> agent \<times> db \<times> effect list" where
  "deleteAgent nm rpc ts d a =
     (if nm \<notin> set (agents (state a)) then
        (let (a1, es) = broadcastToWebSockets
                          (ErrorFrame (js ''Agent '' @ [0x22] @ nm @ [0x22] @ js '' does not exist'')) a
         in (a1, d, es))
      else
        (case rpc of
           Responded status \<Rightarrow>
             (let a1 = a\<lparr>state := (state a)\<lparr>agents := set_delete nm (agents (state a))\<rparr>\<rparr>;
                  d1 = saveState ts d a1;
                  a2 = a1\<lparr>cache := set_delete (js ''state:'' @ currentPath a1) (cache a1)\<rparr>;
                  (a3, e1) = broadcastToWebSockets (AgentDeleted nm) a2;
                  (a4, e2) = broadcastState a3
              in (a4, d1, e1 @ e2))
         | Raised \<Rightarrow>
             (let a1 = a\<lparr>state := (state a)\<lparr>agents := set_delete nm (agents (state a))\<rparr>\<rparr>;
                  d1 = saveState ts d a1;
                  (a2, e1) = broadcastToWebSockets
                               (MessageFrame (js ''system'')
                                  (js ''Deleted '' @ nm @ js '' (cascade may have failed)'')) a1;
                  (a3, e2) = broadcastState a2
              in (a3, d1, e1 @ e2))))"

text \<open>
  \<open>handleDeleteSubtree\<close>.  The calls to the children are peer calls, each inside its own
  \<open>try\<close>; they change nothing here.  The result carries the status of the response.
\<close>

definition handleDeleteSubtree :: "int \<Rightarrow> db \<Rightarrow> agent \<Rightarrow> agent \<times> db \<times> effect list \<times> nat" where
  "handleDeleteSubtree ts d a =
     (let a1 = a\<lparr>state := (state a)\<lparr>agents := [], counter := 0, messages := []\<rparr>\<rparr>;
          d1 = saveState ts d a1;
          es = map (\<lambda>ws. Close (ws_id ws)) (websockets (state a1));
          a2 = a1\<lparr>state := (state a1)\<lparr>websockets := []\<rparr>\<rparr>
      in (a2, d1, es, 200))"

subsection \<open>Chat statistics\<close>

datatype stats_event = message_ev | action_ev | success_ev | failure_ev

text \<open>\<open>Math.round(x * 100) / 100\<close>.\<close>

definition round2 :: "real \<Rightarrow> real" where
  "round2 x = of_int \<lfloor>x * 100 + 1 / 2\<rfloor> / 100"

text \<open>
  \<open>saveChatStatistics\<close>; \<open>today\<close> is the UTC date of the clock.  The rate is assigned to
  \<open>chatStats\<close> first.  The statement that follows has ten placeholders and is given one
  array, inside the \<open>try\<close> of the function, whose \<open>catch\<close> only logs.
\<close>

definition saveChatStatistics :: "jsstring \<Rightarrow> db \<Rightarrow> agent \<Rightarrow> agent \<times> db" where
  "saveChatStatistics today d a =
     (let cs = chatStats a;
          cs1 = cs\<lparr>successRate :=
                  (if actionsExecuted cs > 0
                   then (real (successfulActions cs) / real (actionsExecuted cs)) * 100
                   else 0)\<rparr>;
          row = \<lparr>cs_location = currentPath a, cs_date = today,
                 cs_messages_today = messagesToday cs1,
                 cs_actions_executed = actionsExecuted cs1,
                 cs_successful_actions = successfulActions cs1,
                 cs_success_rate = successRate cs1\<rparr>
      in (a\<lparr>chatStats := cs1\<rparr>,
          (if exec_accepts 10 1
           then d\<lparr>chat_statistics :=
                    insert_or_replace (\<lambda>r. (cs_location r, cs_date r)) row (chat_statistics d)\<rparr>
           else d)))"

definition broadcastChatStats :: "agent \<Rightarrow> agent \<times> effect list" where
  "broadcastChatStats a =
     broadcastToWebSockets
       (ChatStatsFrame (messagesToday (chatStats a)) (actionsExecuted (chatStats a))
          (round2 (successRate (chatStats a)))) a"

definition updateChatStats :: "stats_event \<Rightarrow> jsstring \<Rightarrow> db \<Rightarrow> agent \<Rightarrow> agent \<times> db \<times> effect list" where
  "updateChatStats ev today d a =
     (let cs = chatStats a;
          cs1 = (case ev of
                   message_ev \<Rightarrow> cs\<lparr>messagesToday := messagesToday cs + 1\<rparr>
                 | action_ev \<Rightarrow> cs\<lparr>actionsExecuted := actionsExecuted cs + 1\<rparr>
                 | success_ev \<Rightarrow> cs\<lparr>successfulActions := successfulActions cs + 1\<rparr>
                 | failure_ev \<Rightarrow> cs);
          (a1, d1) = saveChatStatistics today d (a\<lparr>chatStats := cs1\<rparr>);
          (a2, es) = broadcastChatStats a1
      in (a2, d1, es))"

text \<open>
  \<open>executeChatActions\<close>: each action is counted before it runs and then tallied as a
  success or, when its body raised, as a failure.  An action is represented by whether
  its body returns (\<open>True\<close>) or raises; the bodies do not write the chat counters.
\<close>

fun executeChatActions :: "bool list \<Rightarrow> jsstring \<Rightarrow> db \<Rightarrow> agent \<Rightarrow> agent \<times> db \<times> effect list" where
  "executeChatActions [] today d a = (a, d, [])"
| "executeChatActions (ok # rest) today d a =
     (let (a1, d1, e1) = updateChatStats action_ev today d a;
          (a2, d2, e2) = updateChatStats (if ok then success_ev else failure_ev) today d1 a1;
          (a3, d3, e3) = executeChatActions rest today d2 a2
      in (a3, d3, e1 @ e2 @ e3))"

text \<open>
  The chat counters that the agent can hold.  \<open>updateChatStats\<close> is private; it is called
  by \<open>processChatMessage\<close> with \<open>message\<close> and by \<open>executeChatActions\<close>.  The last rule
  is the state while an action runs.
\<close>

inductive chat_reachable :: "ChatStats \<Rightarrow> bool" where
  initial: "chat_reachable (chatStats new_agent)"
| chat_message:
    "chat_reachable (chatStats a) \<Longrightarrow>
     chat_reachable (chatStats (fst (updateChatStats message_ev today d a)))"
| chat_actions:
    "chat_reachable (chatStats a) \<Longrightarrow>
     chat_reachable (chatStats (fst (executeChatActions oks today d a)))"
| action_running:
    "chat_reachable (chatStats a) \<Longrightarrow>
     chat_reachable (chatStats (fst (updateChatStats action_ev today d a)))"


section \<open>Router (index.tsx)\<close>

record request =
  host_header :: "jsstring option"
  path :: jsstring
  url_pathname :: jsstring
  req_method :: jsstring
  upgrade_header :: "jsstring option"

text \<open>
  What the handler does with a request: it serves the page, or it forwards to the
  durable object of the given name with the headers \<open>x-fleet-path\<close> and \<open>x-tenant-id\<close>
  and the given target path.
\<close>

datatype route_result =
    Html jsstring jsstring
  | Forward jsstring jsstring jsstring jsstring

text \<open>\<open>s.slice(0, -3)\<close>.\<close>

definition slice_ws :: "jsstring \<Rightarrow> jsstring" where
  "slice_ws s = take (length s - 3) s"

text \<open>\<open>x || d\<close> on a string: the empty string is falsy.\<close>

definition or_str :: "jsstring \<Rightarrow> jsstring \<Rightarrow> jsstring" where
  "or_str x d = (if x = [] then d else x)"

definition handleWebSocketUpgrade :: "request \<Rightarrow> jsstring \<Rightarrow> jsstring \<Rightarrow> route_result" where
  "handleWebSocketUpgrade req p tenant =
     (let fleetPath = (if endsWith p (js ''/ws'') then slice_ws p else p);
          tenantFleetId = tenant @ js '':'' @ fleetPath
      in Forward tenantFleetId fleetPath tenant (url_pathname req))"

text \<open>The tenant and the tenant-relative path; \<open>None\<close> is \<open>null\<close>.\<close>

definition derive_tenant :: "request \<Rightarrow> jsstring option \<times> jsstring" where
  "derive_tenant req =
     (let host = (case host_header req of None \<Rightarrow> [] | Some h \<Rightarrow> h);
          hostParts = split 0x2E host
      in if length hostParts \<ge> 3 \<and> hostParts ! 0 \<noteq> js ''www'' then
           (Some (hostParts ! 0), path req)
         else if startsWith (path req) (js ''/tenant/'') then
           (let pathParts = filterBoolean (split 0x2F (path req))
            in if length pathParts \<ge> 2
               then (Some (pathParts ! 1), js ''/'' @ join (js ''/'') (drop 2 pathParts))
               else (None, path req))
         else
           (let pathParts = filterBoolean (split 0x2F (path req))
            in if length pathParts \<ge> 1
               then (Some (pathParts ! 0), js ''/'' @ join (js ''/'') (drop 1 pathParts))
               else (None, path req)))"

definition apiEndpoints :: "jsstring list" where
  "apiEndpoints =
     [js ''/messages'', js ''/state'', js ''/increment'', js ''/delete-subtree'', js ''/message'',
      js ''/inventory/stock'', js ''/inventory/query'', js ''/inventory/sync'',
      js ''/inventory/alerts'', js ''/ai/analyze'', js ''/ai/forecast'', js ''/ai/insights'',
      js ''/debug/locations'', js ''/debug/db'']"

text \<open>The loop over \<open>apiEndpoints\<close>: the first endpoint that ends the path is cut off.\<close>

fun strip_endpoint :: "jsstring list \<Rightarrow> jsstring \<Rightarrow> jsstring \<times> jsstring" where
  "strip_endpoint [] p = (p, js ''/'')"
| "strip_endpoint (e # es) p =
     (if endsWith p e then (take (length p - length e) p, e) else strip_endpoint es p)"

definition route_handler :: "request \<Rightarrow> route_result" where
  "route_handler req =
     (let (tid, tenantPath) = derive_tenant req;
          tenantId = (case tid of None \<Rightarrow> js ''demo''
                      | Some t \<Rightarrow> if t = [] then js ''demo'' else t)
      in if upgrade_header req = Some (js ''websocket'') then
           handleWebSocketUpgrade req tenantPath tenantId
         else
           (let pathWithoutQuery = or_str tenantPath (url_pathname req);
                isApiRequest =
                  (includes_str pathWithoutQuery (js ''/api/'') \<or>
                   endsWith pathWithoutQuery (js ''/messages'') \<or>
                   endsWith pathWithoutQuery (js ''/state'') \<or>
                   endsWith pathWithoutQuery (js ''/increment'') \<or>
                   endsWith pathWithoutQuery (js ''/delete-subtree'') \<or>
                   endsWith pathWithoutQuery (js ''/inventory/stock'') \<or>
                   endsWith pathWithoutQuery (js ''/inventory/query'') \<or>
                   endsWith pathWithoutQuery (js ''/inventory/sync'') \<or>
                   endsWith pathWithoutQuery (js ''/inventory/alerts'') \<or>
                   endsWith pathWithoutQuery (js ''/ai/analyze'') \<or>
                   endsWith pathWithoutQuery (js ''/ai/forecast'') \<or>
                   endsWith pathWithoutQuery (js ''/ai/insights'') \<or>
                   req_method req \<noteq> js ''GET'')
            in if req_method req = js ''GET'' \<and> \<not> isApiRequest then
                 Html (if endsWith tenantPath (js ''/ws'') then slice_ws tenantPath else tenantPath)
                      tenantId
               else
                 (let (fleetPath1, apiEndpoint1) = strip_endpoint apiEndpoints pathWithoutQuery;
                      (fleetPath2, apiEndpoint2) =
                         (case indexOf pathWithoutQuery (js ''/inventory/'') of
                            Some inventoryIndex \<Rightarrow>
                              (or_str (take inventoryIndex pathWithoutQuery) (js ''/''),
                               drop inventoryIndex pathWithoutQuery)
                          | None \<Rightarrow> (fleetPath1, apiEndpoint1));
                      (fleetPath3, apiEndpoint3) =
                         (if endsWith tenantPath (js ''/ws'')
                          then (slice_ws tenantPath, js ''/'')
                          else (fleetPath2, apiEndpoint2));
                      fleetPath = or_str fleetPath3 (js ''/'');
                      tenantFleetId = tenantId @ js '':'' @ fleetPath
                  in Forward tenantFleetId fleetPath (or_str tenantId (js ''demo'')) apiEndpoint3)))"


section \<open>Auxiliary notions for the properties\<close>

text \<open>Two agent instances that agree on everything but their subscriptions.\<close>

definition only_websockets_differ :: "agent \<Rightarrow> agent \<Rightarrow> bool" where
  "only_websockets_differ a a' \<longleftrightarrow> (\<exists>W. a' = a\<lparr>state := (state a)\<lparr>websockets := W\<rparr>\<rparr>)"

text \<open>The \<open>switch\<close> of \<open>processStockUpdate\<close> on the stock alone.\<close>

definition stock_after :: "operation \<Rightarrow> int \<Rightarrow> int \<Rightarrow> int" where
  "stock_after op s q =
     (case op of set_op \<Rightarrow> q | increment \<Rightarrow> s + q | decrement \<Rightarrow> max 0 (s - q))"

text \<open>The item that \<open>processStockUpdate\<close> stores under the update's SKU.\<close>

definition updated_item ::
  "jsstring \<Rightarrow> InventoryUpdate \<Rightarrow> (jsstring \<times> InventoryItem) list \<Rightarrow> InventoryItem" where
  "updated_item now upd m =
     (let item0 = (case map_of m (u_sku upd) of
                     Some i \<Rightarrow> i
                   | None \<Rightarrow> \<lparr>sku = u_sku upd, name = js ''Product '' @ u_sku upd,
                              currentStock = 0, lowStockThreshold = 10, lastUpdated = now\<rparr>)
      in item0\<lparr>currentStock := stock_after (operation upd) (currentStock item0) (quantity upd),
               lastUpdated := now\<rparr>)"

text \<open>No item of the inventory has a negative stock.\<close>

definition nonneg_stock :: "(jsstring \<times> InventoryItem) list \<Rightarrow> bool" where
  "nonneg_stock m \<longleftrightarrow> list_all (\<lambda>p. 0 \<le> currentStock (snd p)) m"

text \<open>Whether a frame is an \<open>error\<close> frame.\<close>

definition is_error_frame :: "frame \<Rightarrow> bool" where
  "is_error_frame f = (case f of ErrorFrame _ \<Rightarrow> True | _ \<Rightarrow> False)"

text \<open>The fields of an item that \<open>inventory_items\<close> has a column for.\<close>

definition persisted_fields :: "InventoryItem \<Rightarrow> jsstring \<times> jsstring \<times> int \<times> int" where
  "persisted_fields i = (sku i, name i, currentStock i, lowStockThreshold i)"

text \<open>The row that \<open>saveState\<close> writes for an item, and the item that \<open>loadStateFromStorage\<close> builds from a row.\<close>

definition item_row :: "int \<Rightarrow> jsstring \<Rightarrow> InventoryItem \<Rightarrow> inventory_items_row" where
  "item_row ts p i =
     \<lparr>ii_sku = sku i, ii_name = name i, ii_current_stock = currentStock i,
      ii_low_stock_threshold = lowStockThreshold i, ii_location = p,
      ii_created_at = ts, ii_updated_at = ts\<rparr>"

definition row_item :: "jsstring \<Rightarrow> inventory_items_row \<Rightarrow> InventoryItem" where
  "row_item now r =
     \<lparr>sku = ii_sku r, name = ii_name r, currentStock = ii_current_stock r,
      lowStockThreshold = ii_low_stock_threshold r, lastUpdated = now\<rparr>"

text \<open>
  The inventory is a \<open>Map\<close> (no key twice) that holds every item under its own SKU, as
  \<open>processStockUpdate\<close> and \<open>loadStateFromStorage\<close> store it.
\<close>

definition keyed_by_sku :: "(jsstring \<times> InventoryItem) list \<Rightarrow> bool" where
  "keyed_by_sku m \<longleftrightarrow> distinct (map fst m) \<and> list_all (\<lambda>e. sku (snd e) = fst e) m"

text \<open>The store holds no \<open>inventory_items\<close> row of this path for a SKU outside the inventory.\<close>

definition only_rows_of :: "(jsstring \<times> InventoryItem) list \<Rightarrow> jsstring \<Rightarrow> db \<Rightarrow> bool" where
  "only_rows_of m p d \<longleftrightarrow>
     list_all (\<lambda>r. ii_location r = p \<longrightarrow> ii_sku r \<in> set (map fst m)) (inventory_items d)"

text \<open>A socket that gets a frame: open, and its \<open>send\<close> returns.\<close>

definition can_receive :: "websocket \<Rightarrow> bool" where
  "can_receive ws \<longleftrightarrow> readyState ws = 1 \<and> \<not> send_throws ws"


text \<open>The sends of one broadcast, in the order of the subscriptions.\<close>

definition delivered :: "frame \<Rightarrow> websocket list \<Rightarrow> effect list" where
  "delivered f wss = map (\<lambda>ws. Send (ws_id ws) f) (filter can_receive wss)"

text \<open>Every child name passes \<open>AgentNameSchema\<close>, as every name that \<open>createAgent\<close> adds does.\<close>

definition valid_children :: "agent \<Rightarrow> bool" where
  "valid_children a \<longleftrightarrow> list_all (\<lambda>n. AgentNameSchema n = Inr n) (agents (state a))"

text \<open>The message of the \<open>AGENT_EXISTS\<close> error and the notice of a failed cascade.\<close>

definition exists_message :: "jsstring \<Rightarrow> jsstring" where
  "exists_message n = js ''Agent '' @ [0x22] @ n @ [0x22] @ js '' already exists''"


text \<open>
  The segment class as the specification writes it, \<open>[A-Za-z0-9 _\-]{1,32}\<close>: of the
  white space only the space.  It is compared with the class of \<open>AgentNameSchema\<close> below.
\<close>

definition spec_segment_char :: "jschar \<Rightarrow> bool" where
  "spec_segment_char c \<longleftrightarrow>
     (0x41 \<le> c \<and> c \<le> 0x5A) \<or> (0x61 \<le> c \<and> c \<le> 0x7A) \<or> (0x30 \<le> c \<and> c \<le> 0x39) \<or>
     c = 0x20 \<or> c = 0x5F \<or> c = 0x2D"

definition spec_segment :: "jsstring \<Rightarrow> bool" where
  "spec_segment s \<longleftrightarrow> 1 \<le> length s \<and> length s \<le> 32 \<and> list_all spec_segment_char s"

text \<open>The \<open>InventoryError\<close> that \<open>validateInput\<close> throws.\<close>

definition validation_error :: "zod_issue list \<Rightarrow> InventoryError" where
  "validation_error issues =
     \<lparr>code = js ''VALIDATION_ERROR'', message = js ''Invalid input'', statusCode = 400,
      details = issues\<rparr>"

text \<open>The success rate that \<open>saveChatStatistics\<close> computes from the counters.\<close>

definition rate_of :: "ChatStats \<Rightarrow> real" where
  "rate_of cs =
     (if actionsExecuted cs > 0
      then (real (successfulActions cs) / real (actionsExecuted cs)) * 100 else 0)"

text \<open>The effect of \<open>updateChatStats\<close> on the chat counters alone.\<close>

definition stats_step :: "stats_event \<Rightarrow> ChatStats \<Rightarrow> ChatStats" where
  "stats_step ev cs =
     (let cs1 = (case ev of
                   message_ev \<Rightarrow> cs\<lparr>messagesToday := messagesToday cs + 1\<rparr>
                 | action_ev \<Rightarrow> cs\<lparr>actionsExecuted := actionsExecuted cs + 1\<rparr>
                 | success_ev \<Rightarrow> cs\<lparr>successfulActions := successfulActions cs + 1\<rparr>
                 | failure_ev \<Rightarrow> cs)
      in cs1\<lparr>successRate := rate_of cs1\<rparr>)"

text \<open>No more successes than actions, and the rate is the one of the counters.\<close>

definition stats_consistent :: "ChatStats \<Rightarrow> bool" where
  "stats_consistent cs \<longleftrightarrow>
     successfulActions cs \<le> actionsExecuted cs \<and> successRate cs = rate_of cs"

text \<open>The host names a tenant: three labels or more, the first not \<open>www\<close>.\<close>

definition subdomain_tenant :: "request \<Rightarrow> bool" where
  "subdomain_tenant req \<longleftrightarrow>
     (let hostParts = split 0x2E (case host_header req of None \<Rightarrow> [] | Some h \<Rightarrow> h)
      in length hostParts \<ge> 3 \<and> hostParts ! 0 \<noteq> js ''www'')"

text \<open>\<open>path.split('/').filter(Boolean)\<close>.\<close>

definition segments :: "jsstring \<Rightarrow> jsstring list" where
  "segments p = filterBoolean (split 0x2F p)"

text \<open>
  The path holds the tenant: an id after \<open>/tenant/\<close>, or else a first segment.
\<close>

definition tenant_in_path :: "jsstring \<Rightarrow> bool" where
  "tenant_in_path p \<longleftrightarrow>
     (if startsWith p (js ''/tenant/'') then 2 \<le> length (segments p)
      else 1 \<le> length (segments p))"

text \<open>The name of the durable object and the \<open>x-fleet-path\<close> header of a forwarded request.\<close>

definition owner_key :: "route_result \<Rightarrow> jsstring option" where
  "owner_key r = (case r of Forward k _ _ _ \<Rightarrow> Some k | Html _ _ \<Rightarrow> None)"

definition fleet_path_header :: "route_result \<Rightarrow> jsstring option" where
  "fleet_path_header r = (case r of Forward _ p _ _ \<Rightarrow> Some p | Html _ _ \<Rightarrow> None)"

text \<open>The same request for the path with one more slash at its end.\<close>

definition with_trailing_slash :: "request \<Rightarrow> request" where
  "with_trailing_slash req =
     req\<lparr>path := path req @ js ''/'', url_pathname := url_pathname req @ js ''/''\<rparr>"

subsection \<open>Example values\<close>

definition example_env :: collaborators where
  "example_env =
     \<lparr>ai_insights = \<lparr>shouldReorder = True, reorderQuantity = 50, ins_urgency = medium,
                      leadTimeMs = 604800000, reasoning = js ''fallback'', confidence = 1 / 2\<rparr>,
      dispatch_ok = True\<rparr>"

definition example_update :: "operation \<Rightarrow> int \<Rightarrow> InventoryUpdate" where
  "example_update op q =
     \<lparr>u_sku = js ''SKU-1'', quantity = q, operation = op, timestamp = js ''t0'',
      location = js ''/wh''\<rparr>"

definition example_item :: "int \<Rightarrow> InventoryItem" where
  "example_item s =
     \<lparr>sku = js ''SKU-1'', name = js ''Widget'', currentStock = s, lowStockThreshold = 10,
      lastUpdated = js ''t0''\<rparr>"

definition example_call :: "operation \<Rightarrow> int \<Rightarrow> stock_call" where
  "example_call op q =
     \<lparr>call_env = example_env, call_now = js ''t1'', call_ts = 1,
      call_update = example_update op q\<rparr>"

definition example_agent :: agent where
  "example_agent =
     new_agent\<lparr>currentPath := js ''/a'',
               state := \<lparr>counter = 3, agents = [js ''b''],
                          websockets = [\<lparr>ws_id = 1, readyState = 1, send_throws = False\<rparr>],
                          messages = [],
                          inventory = [(js ''SKU-1'', example_item 5)],
                          agentType = warehouse\<rparr>\<rparr>"

definition tab_name :: jsstring where
  "tab_name = [0x61, 0x09, 0x62]"

definition name32 :: jsstring where
  "name32 = js ''abcdefghijklmnopqrstuvwxyz012345''"

definition name33 :: jsstring where
  "name33 = js ''abcdefghijklmnopqrstuvwxyz0123456''"

definition example_request :: "string \<Rightarrow> string \<Rightarrow> request" where
  "example_request h p =
     \<lparr>host_header = Some (js h), path = js p, url_pathname = js p, req_method = js ''POST'',
      upgrade_header = None\<rparr>"


definition example_upgrade :: "string \<Rightarrow> string \<Rightarrow> request" where
  "example_upgrade h p =
     (example_request h p)\<lparr>req_method := js ''GET'', upgrade_header := Some (js ''websocket'')\<rparr>"

section \<open>Properties\<close>

subsection \<open>Broadcasting touches the subscriptions only\<close>

lemma owd_refl: "only_websockets_differ a a"
  unfolding only_websockets_differ_def by (rule exI[of _ "websockets (state a)"]) simp

lemma owd_trans:
  "only_websockets_differ a b \<Longrightarrow> only_websockets_differ b c \<Longrightarrow> only_websockets_differ a c"
  unfolding only_websockets_differ_def by auto

lemma owd_fields:
  assumes "only_websockets_differ a a'"
  shows "counter (state a') = counter (state a)"
    and "agents (state a') = agents (state a)"
    and "inventory (state a') = inventory (state a)"
    and "messages (state a') = messages (state a)"
    and "agentType (state a') = agentType (state a)"
    and "currentPath a' = currentPath a"
    and "chatStats a' = chatStats a"
    and "cache a' = cache a"
    and "initializationComplete a' = initializationComplete a"
  using assms unfolding only_websockets_differ_def by auto

lemma owd_sendToWebSocket: "only_websockets_differ a (fst (sendToWebSocket ws f a))"
  unfolding sendToWebSocket_def only_websockets_differ_def
  by (auto intro: exI[of _ "websockets (state a)"])

lemma owd_send_all: "only_websockets_differ a (fst (send_all f wss a))"
proof (induction wss arbitrary: a)
  case Nil
  show ?case by (simp add: owd_refl)
next
  case (Cons ws wss)
  have "only_websockets_differ a (fst (sendToWebSocket ws f a))"
    by (rule owd_sendToWebSocket)
  moreover have "only_websockets_differ (fst (sendToWebSocket ws f a))
                   (fst (send_all f wss (fst (sendToWebSocket ws f a))))"
    by (rule Cons.IH)
  ultimately show ?case
    by (auto simp: case_prod_beta Let_def intro: owd_trans)
qed

lemma owd_broadcastToWebSockets: "only_websockets_differ a (fst (broadcastToWebSockets f a))"
  unfolding broadcastToWebSockets_def by (rule owd_send_all)

lemma owd_broadcastState: "only_websockets_differ a (fst (broadcastState a))"
  unfolding broadcastState_def by (simp add: owd_refl owd_broadcastToWebSockets)

lemma owd_broadcast_all: "only_websockets_differ a (fst (broadcast_all fs a))"
proof (induction fs arbitrary: a)
  case Nil
  show ?case by (simp add: owd_refl)
next
  case (Cons f fs)
  show ?case
    using owd_trans[OF owd_broadcastToWebSockets[of a f]
                       Cons.IH[of "fst (broadcastToWebSockets f a)"]]
    by (simp add: case_prod_beta Let_def)
qed

subsection \<open>Stock updates\<close>

lemma map_of_update: "map_of (AList.update k v al) = (map_of al)(k \<mapsto> v)"
  by (rule update_conv')

lemma processStockUpdate_inventory:
  "fst (processStockUpdate env now upd loc d m) =
   AList.update (u_sku upd) (updated_item now upd m) m"
  unfolding processStockUpdate_def updated_item_def stock_after_def
  by (simp add: Let_def case_prod_beta split: operation.splits option.splits)

lemma nonneg_stock_update:
  "nonneg_stock m \<Longrightarrow> 0 \<le> currentStock v \<Longrightarrow> nonneg_stock (AList.update k v m)"
  unfolding nonneg_stock_def by (induction m) auto

lemma nonneg_stock_lookup:
  "nonneg_stock m \<Longrightarrow> map_of m k = Some i \<Longrightarrow> 0 \<le> currentStock i"
  unfolding nonneg_stock_def by (auto simp: list_all_iff dest!: map_of_SomeD)

lemma updated_item_nonneg:
  assumes "nonneg_stock m" and "0 \<le> quantity upd"
  shows "0 \<le> currentStock (updated_item now upd m)"
proof (cases "map_of m (u_sku upd)")
  case None
  then show ?thesis using assms(2)
    by (simp add: updated_item_def stock_after_def Let_def split: operation.splits)
next
  case (Some i)
  then have "0 \<le> currentStock i" using assms(1) by (rule nonneg_stock_lookup[rotated])
  then show ?thesis using Some assms(2)
    by (simp add: updated_item_def stock_after_def Let_def split: operation.splits)
qed

lemma processStockUpdate_nonneg:
  "nonneg_stock m \<Longrightarrow> 0 \<le> quantity upd \<Longrightarrow>
   nonneg_stock (fst (processStockUpdate env now upd loc d m))"
  by (simp add: processStockUpdate_inventory nonneg_stock_update updated_item_nonneg)

lemma agent_processStockUpdate_inventory:
  "inventory (state (fst (agent_processStockUpdate env now ts upd d a))) =
   fst (processStockUpdate env now (upd\<lparr>timestamp := now, location := currentPath a\<rparr>)
          (currentPath a) d (inventory (state a)))"
proof -
  obtain m' d1 frames where p:
    "processStockUpdate env now (upd\<lparr>timestamp := now, location := currentPath a\<rparr>)
       (currentPath a) d (inventory (state a)) = (m', d1, frames)"
    by (cases "processStockUpdate env now (upd\<lparr>timestamp := now, location := currentPath a\<rparr>)
       (currentPath a) d (inventory (state a))") auto
  have "inventory (state (fst (broadcast_all frames (a\<lparr>state := (state a)\<lparr>inventory := m'\<rparr>\<rparr>)))) = m'"
    using owd_fields(3)[OF owd_broadcast_all[of "a\<lparr>state := (state a)\<lparr>inventory := m'\<rparr>\<rparr>" frames]]
    by simp
  then show ?thesis
    by (simp add: agent_processStockUpdate_def p Let_def case_prod_beta)
qed

lemma agent_processStockUpdate_nonneg:
  "nonneg_stock (inventory (state a)) \<Longrightarrow> 0 \<le> quantity upd \<Longrightarrow>
   nonneg_stock (inventory (state (fst (agent_processStockUpdate env now ts upd d a))))"
  by (simp add: agent_processStockUpdate_inventory processStockUpdate_nonneg)

lemma processInventorySync_nonneg:
  "nonneg_stock (inventory (state a)) \<Longrightarrow>
   list_all (\<lambda>c. 0 \<le> quantity (call_update c)) calls \<Longrightarrow>
   nonneg_stock (inventory (state (fst (processInventorySync calls d a))))"
proof (induction calls arbitrary: a d)
  case Nil
  then show ?case by simp
next
  case (Cons c cs)
  let ?r = "agent_processStockUpdate (call_env c) (call_now c) (call_ts c) (call_update c) d a"
  have "nonneg_stock (inventory (state (fst ?r)))"
    using Cons.prems by (simp add: agent_processStockUpdate_nonneg)
  then have "nonneg_stock (inventory (state (fst (processInventorySync cs (fst (snd ?r)) (fst ?r)))))"
    using Cons.prems by (intro Cons.IH) simp_all
  then show ?case by (simp add: case_prod_beta Let_def)
qed

text \<open>
  Claim C1.  A decrement by \<open>q\<close> of an item with stock \<open>s\<close> (\<open>0\<close> for a SKU that is not
  yet in the inventory) leaves the stock \<open>max 0 (s - q)\<close>; and when no item has a negative
  stock, no sequence of stock updates with non-negative quantities, run one after the
  other as \<open>processInventorySync\<close> does, produces a negative stock.
\<close>

theorem decrement_clamps_at_zero:
  "(operation upd = decrement \<longrightarrow>
      map_option currentStock
        (map_of (fst (processStockUpdate env now upd loc d m)) (u_sku upd)) =
      Some (max 0 ((case map_of m (u_sku upd) of Some i \<Rightarrow> currentStock i | None \<Rightarrow> 0)
                     - quantity upd))) \<and>
   (nonneg_stock (inventory (state a)) \<and>
    list_all (\<lambda>c. 0 \<le> quantity (call_update c)) calls \<longrightarrow>
      nonneg_stock (inventory (state (fst (processInventorySync calls d' a)))))"
proof (intro conjI impI)
  assume "operation upd = decrement"
  then show "map_option currentStock
        (map_of (fst (processStockUpdate env now upd loc d m)) (u_sku upd)) =
      Some (max 0 ((case map_of m (u_sku upd) of Some i \<Rightarrow> currentStock i | None \<Rightarrow> 0)
                     - quantity upd))"
    by (simp add: processStockUpdate_inventory map_of_update updated_item_def stock_after_def
        Let_def split: option.splits)
next
  assume "nonneg_stock (inventory (state a)) \<and>
    list_all (\<lambda>c. 0 \<le> quantity (call_update c)) calls"
  then show "nonneg_stock (inventory (state (fst (processInventorySync calls d' a))))"
    by (simp add: processInventorySync_nonneg)
qed

theorem decrement_clamps_at_zero_witness:
  "map_option currentStock
     (map_of (fst (processStockUpdate example_env (js ''t1'') (example_update decrement 150)
                     (js ''/wh'') empty_db [(js ''SKU-1'', example_item 100)])) (js ''SKU-1'')) =
   Some 0 \<and>
   nonneg_stock (inventory (state (fst (processInventorySync
     [example_call set_op 100, example_call decrement 150] empty_db new_agent))))"
  using decrement_clamps_at_zero
    [of "example_update decrement 150" example_env "js ''t1''" "js ''/wh''" empty_db
        "[(js ''SKU-1'', example_item 100)]" new_agent
        "[example_call set_op 100, example_call decrement 150]" empty_db]
  by (simp add: example_update_def example_item_def example_call_def new_agent_def
      nonneg_stock_def)

lemma is_error_frame_simps:
  "\<not> is_error_frame (LowStockAlertFrame k s t loc)"
  "\<not> is_error_frame (StockUpdateFrame k s op)"
  by (simp_all add: is_error_frame_def)

lemma processLowStockAlert_raises:
  "processLowStockAlert env now k item loc d = (d, [])"
  unfolding processLowStockAlert_def by (simp add: Let_def exec_accepts_def)

lemma processStockUpdate_store:
  "fst (snd (processStockUpdate env now upd loc d m)) = d"
  unfolding processStockUpdate_def
  by (simp add: Let_def case_prod_beta processLowStockAlert_raises exec_accepts_def)

lemma processStockUpdate_frames:
  "snd (snd (processStockUpdate env now upd loc d m)) =
     (if currentStock (updated_item now upd m) \<le> lowStockThreshold (updated_item now upd m)
      then [LowStockAlertFrame (u_sku upd) (currentStock (updated_item now upd m))
             (lowStockThreshold (updated_item now upd m)) loc]
      else []) @
     [StockUpdateFrame (u_sku upd) (currentStock (updated_item now upd m)) set_op]"
  unfolding processStockUpdate_def updated_item_def stock_after_def
  by (simp add: Let_def case_prod_beta processLowStockAlert_raises
      split: operation.splits option.splits)

lemma updated_item_again:
  "operation upd = set_op \<Longrightarrow>
   updated_item now2 upd (AList.update (u_sku upd) (updated_item now1 upd m) m) =
   (updated_item now1 upd m)\<lparr>lastUpdated := now2\<rparr>"
  by (simp add: updated_item_def map_of_update stock_after_def Let_def)

text \<open>
  Two consecutive \<open>set\<close> updates of the same SKU to the same quantity: the stock after the
  second is the stock after the first, namely the quantity; the inventory has the same
  SKUs in the same order, and every item agrees on SKU, name, stock and threshold
  (\<open>lastUpdated\<close> is the clock of the later call, so the inventories are equal when both
  calls read the same clock).  The store is the one before the calls.
\<close>

lemma set_twice_same_inventory:
  "operation upd = set_op \<Longrightarrow>
   (let r1 = processStockUpdate env1 now1 upd loc d m;
        r2 = processStockUpdate env2 now2 upd loc (fst (snd r1)) (fst r1)
    in map_option currentStock (map_of (fst r1) (u_sku upd)) = Some (quantity upd) \<and>
       map_option currentStock (map_of (fst r2) (u_sku upd)) = Some (quantity upd) \<and>
       map fst (fst r2) = map fst (fst r1) \<and>
       (\<forall>k. map_option persisted_fields (map_of (fst r2) k) =
            map_option persisted_fields (map_of (fst r1) k)) \<and>
       (now2 = now1 \<longrightarrow> fst r2 = fst r1) \<and>
       fst (snd r2) = d)"
proof -
  assume op: "operation upd = set_op"
  let ?i1 = "updated_item now1 upd m"
  let ?m1 = "AList.update (u_sku upd) ?i1 m"
  have m2: "fst (processStockUpdate e2 n2 upd loc d2 ?m1) =
            AList.update (u_sku upd) (?i1\<lparr>lastUpdated := n2\<rparr>) m" for e2 n2 d2
    by (simp add: processStockUpdate_inventory updated_item_again[OF op])
  have s1: "currentStock ?i1 = quantity upd"
    using op by (simp add: updated_item_def stock_after_def Let_def)
  have l1: "lastUpdated ?i1 = now1"
    by (simp add: updated_item_def Let_def)
  have same: "?i1\<lparr>lastUpdated := now1\<rparr> = ?i1"
    using l1 by simp
  show ?thesis
    unfolding Let_def
    by (simp add: processStockUpdate_inventory[of env1] m2 map_of_update s1 update_keys
        persisted_fields_def processStockUpdate_store same)
qed

text \<open>
  Claim C8.  Two consecutive \<open>set\<close> updates of \<open>SKU-1\<close> to 40, on an empty inventory and
  an empty store.  The stock is 40 after the first and after the second, so the update is
  idempotent on the stock.  No row is appended to \<open>inventory_transactions\<close>, where the
  claim has two: the insert passes its five values to \<open>exec\<close> as one array, \<open>exec\<close> raises,
  and the \<open>catch\<close> around it logs the error and goes on.  The table is empty after both
  calls.
\<close>

theorem set_twice_records_no_transaction:
  "(let r1 = processStockUpdate example_env (js ''t1'') (example_update set_op 40)
               (js ''/wh'') empty_db [];
        r2 = processStockUpdate example_env (js ''t2'') (example_update set_op 40)
               (js ''/wh'') (fst (snd r1)) (fst r1)
    in map_option currentStock (map_of (fst r1) (js ''SKU-1'')) = Some 40 \<and>
       map_option currentStock (map_of (fst r2) (js ''SKU-1'')) = Some 40 \<and>
       inventory_transactions (fst (snd r1)) = [] \<and>
       inventory_transactions (fst (snd r2)) = [])"
  using set_twice_same_inventory
    [of "example_update set_op 40" example_env "js ''t1''" "js ''/wh''" empty_db "[]"
        example_env "js ''t2''"]
  by (simp add: Let_def example_update_def empty_db_def processStockUpdate_store)

text \<open>
  Claim C10.  A stock update whose SKU is not in the inventory does not fail: it stores a
  new item named \<open>Product <sku>\<close> with threshold 10 whose stock is the operation applied
  to 0, sends no error frame and ends with the \<open>stockUpdate\<close> frame.  A decrement (by a
  non-negative quantity, as the update schema requires) therefore leaves the stock 0 and
  first raises the low-stock alert for stock 0 and threshold 10.
\<close>

theorem unknown_sku_creates_item:
  "map_of m (u_sku upd) = None \<Longrightarrow>
   (let r = processStockUpdate env now upd loc d m
    in map_of (fst r) (u_sku upd) =
         Some \<lparr>sku = u_sku upd, name = js ''Product '' @ u_sku upd,
               currentStock = (case operation upd of
                                 set_op \<Rightarrow> quantity upd
                               | increment \<Rightarrow> 0 + quantity upd
                               | decrement \<Rightarrow> max 0 (0 - quantity upd)),
               lowStockThreshold = 10, lastUpdated = now\<rparr> \<and>
       list_all (\<lambda>f. \<not> is_error_frame f) (snd (snd r)) \<and>
       last (snd (snd r)) =
         StockUpdateFrame (u_sku upd)
           (case operation upd of
              set_op \<Rightarrow> quantity upd
            | increment \<Rightarrow> 0 + quantity upd
            | decrement \<Rightarrow> max 0 (0 - quantity upd)) set_op \<and>
       (operation upd = decrement \<and> 0 \<le> quantity upd \<longrightarrow>
          map_option currentStock (map_of (fst r) (u_sku upd)) = Some 0 \<and>
          hd (snd (snd r)) = LowStockAlertFrame (u_sku upd) 0 10 loc))"
proof -
  assume none: "map_of m (u_sku upd) = None"
  have item: "updated_item now upd m =
        \<lparr>sku = u_sku upd, name = js ''Product '' @ u_sku upd,
               currentStock = (case operation upd of
                                 set_op \<Rightarrow> quantity upd
                               | increment \<Rightarrow> 0 + quantity upd
                               | decrement \<Rightarrow> max 0 (0 - quantity upd)),
               lowStockThreshold = 10, lastUpdated = now\<rparr>"
    using none
    by (simp add: updated_item_def stock_after_def Let_def split: operation.splits)
  have noerr:
    "list_all (\<lambda>f. \<not> is_error_frame f) (snd (snd (processStockUpdate env now upd loc d m)))"
    by (simp add: processStockUpdate_frames is_error_frame_simps)
  show ?thesis
    unfolding Let_def
    apply (intro conjI impI)
        apply (simp add: processStockUpdate_inventory map_of_update item)
       apply (rule noerr)
      apply (simp add: processStockUpdate_frames item)
     apply (simp add: processStockUpdate_inventory map_of_update item)
    apply (simp add: processStockUpdate_frames item)
    done
qed

theorem unknown_sku_creates_item_witness:
  "map_of (fst (processStockUpdate example_env (js ''t1'') (example_update decrement 5)
                  (js ''/wh'') empty_db [])) (js ''SKU-1'') =
     Some \<lparr>sku = js ''SKU-1'', name = js ''Product '' @ js ''SKU-1'', currentStock = 0,
           lowStockThreshold = 10, lastUpdated = js ''t1''\<rparr> \<and>
   hd (snd (snd (processStockUpdate example_env (js ''t1'') (example_update decrement 5)
                  (js ''/wh'') empty_db []))) =
     LowStockAlertFrame (js ''SKU-1'') 0 10 (js ''/wh'')"
  using unknown_sku_creates_item
    [of "[]" "example_update decrement 5" example_env "js ''t1''" "js ''/wh''" empty_db]
  by (simp add: Let_def example_update_def)

subsection \<open>Saving and loading\<close>

lemma save_item_fleet_state: "fleet_state (fold (save_item ts p) m d) = fleet_state d"
  by (induction m arbitrary: d) (simp_all add: save_item_def Let_def)

lemma save_item_rows:
  "inventory_items (save_item ts p e d) =
   filter (\<lambda>r. ii_sku r \<noteq> sku (snd e)) (inventory_items d) @ [item_row ts p (snd e)]"
  by (simp add: save_item_def insert_or_replace_def item_row_def Let_def)

lemma fold_save_item_rows:
  "distinct (map (\<lambda>e. sku (snd e)) m) \<Longrightarrow>
   set (inventory_items (fold (save_item ts p) m d)) =
   {r \<in> set (inventory_items d). ii_sku r \<notin> (\<lambda>e. sku (snd e)) ` set m} \<union>
   (\<lambda>e. item_row ts p (snd e)) ` set m"
proof (induction m arbitrary: d)
  case Nil
  show ?case by simp
next
  case (Cons e m)
  have sk: "ii_sku (item_row ts p (snd e)) = sku (snd e)" by (simp add: item_row_def)
  have "set (inventory_items (fold (save_item ts p) m (save_item ts p e d))) =
     {r \<in> set (inventory_items (save_item ts p e d)). ii_sku r \<notin> (\<lambda>e. sku (snd e)) ` set m} \<union>
     (\<lambda>e. item_row ts p (snd e)) ` set m"
    using Cons.prems by (intro Cons.IH) simp
  moreover have "\<And>x. x \<in> set m \<Longrightarrow> sku (snd x) \<noteq> sku (snd e)"
    using Cons.prems by (fastforce simp: image_iff)
  ultimately show ?case
    by (auto simp: save_item_rows sk)
qed

lemma fold_restore_item:
  "map_of (fold (restore_item now) rows m0) =
   map_of m0 ++ map_of (rev (map (\<lambda>r. (ii_sku r, row_item now r)) rows))"
proof (induction rows arbitrary: m0)
  case Nil
  show ?case by simp
next
  case (Cons r rows)
  have "restore_item now r m0 = AList.update (ii_sku r) (row_item now r) m0"
    by (simp add: restore_item_def row_item_def Let_def)
  then show ?case
    by (simp add: Cons.IH map_of_update map_add_def fun_eq_iff split: option.splits)
qed

lemma map_of_all_same:
  assumes "\<And>v'. (k, v') \<in> set xs \<Longrightarrow> v' = v" and "k \<in> fst ` set xs"
  shows "map_of xs k = Some v"
proof (cases "map_of xs k")
  case None
  then show ?thesis using assms(2) by (simp add: map_of_eq_None_iff)
next
  case (Some v')
  then have "(k, v') \<in> set xs" by (rule map_of_SomeD)
  then show ?thesis using assms(1) Some by simp
qed

lemma keyed_lookup:
  "keyed_by_sku m \<Longrightarrow> (k, i) \<in> set m \<Longrightarrow> map_of m k = Some i \<and> sku i = k"
  unfolding keyed_by_sku_def by (auto simp: list_all_iff)

lemma keyed_distinct_skus:
  "keyed_by_sku m \<Longrightarrow> distinct (map (\<lambda>e. sku (snd e)) m)"
proof -
  assume k: "keyed_by_sku m"
  then have eq: "map (\<lambda>e. sku (snd e)) m = map fst m"
    unfolding keyed_by_sku_def by (auto simp: list_all_iff)
  show ?thesis unfolding eq using k by (simp add: keyed_by_sku_def)
qed

lemma saved_rows_at:
  assumes k: "keyed_by_sku m" and o: "only_rows_of m p d"
  shows "set (filter (\<lambda>r. ii_location r = p) (inventory_items (fold (save_item ts p) m d))) =
         (\<lambda>e. item_row ts p (snd e)) ` set m"
proof -
  have skus: "(\<lambda>e. sku (snd e)) ` set m = fst ` set m"
    using k unfolding keyed_by_sku_def by (force simp: list_all_iff)
  have loc: "ii_location (item_row ts p i) = p" for i by (simp add: item_row_def)
  show ?thesis
    using o unfolding only_rows_of_def
    by (auto simp: fold_save_item_rows[OF keyed_distinct_skus[OF k]] skus loc list_all_iff)
qed

lemma loaded_inventory:
  assumes k: "keyed_by_sku m" and o: "only_rows_of m p d"
  shows "map_of (fold (restore_item now)
            (filter (\<lambda>r. ii_location r = p) (inventory_items (fold (save_item ts p) m d))) []) key =
         map_option (\<lambda>i. i\<lparr>lastUpdated := now\<rparr>) (map_of m key)"
proof -
  let ?rows = "filter (\<lambda>r. ii_location r = p) (inventory_items (fold (save_item ts p) m d))"
  let ?al = "rev (map (\<lambda>r. (ii_sku r, row_item now r)) ?rows)"
  have "set ?al = (\<lambda>r. (ii_sku r, row_item now r)) ` set ?rows"
    by (simp only: set_rev set_map)
  also have "\<dots> = (\<lambda>e. (sku (snd e), row_item now (item_row ts p (snd e)))) ` set m"
    unfolding saved_rows_at[OF k o] by (simp add: image_image item_row_def)
  finally have set_al:
    "set ?al = (\<lambda>e. (sku (snd e), row_item now (item_row ts p (snd e)))) ` set m" .
  have rt: "row_item now (item_row ts p i) = i\<lparr>lastUpdated := now\<rparr>" for i
    by (simp add: row_item_def item_row_def)
  show ?thesis
  proof (cases "map_of m key")
    case None
    then have "key \<notin> fst ` set m" by (simp add: map_of_eq_None_iff)
    moreover have "fst ` set ?al = fst ` set m"
      using k unfolding set_al keyed_by_sku_def by (force simp: list_all_iff)
    ultimately have "map_of ?al key = None" by (simp add: map_of_eq_None_iff del: set_rev set_map)
    then show ?thesis using None by (simp add: fold_restore_item)
  next
    case (Some i)
    then have mem: "(key, i) \<in> set m" by (rule map_of_SomeD)
    have "map_of ?al key = Some (i\<lparr>lastUpdated := now\<rparr>)"
    proof (rule map_of_all_same)
      fix v' assume "(key, v') \<in> set ?al"
      then obtain e where e: "e \<in> set m" "key = sku (snd e)" "v' = row_item now (item_row ts p (snd e))"
        unfolding set_al by auto
      then have "map_of m (fst e) = Some (snd e)" "sku (snd e) = fst e"
        using keyed_lookup[OF k, of "fst e" "snd e"] by auto
      then have "snd e = i" using e(2) Some by simp
      then show "v' = i\<lparr>lastUpdated := now\<rparr>" using e(3) rt by simp
    next
      have "sku i = key" using keyed_lookup[OF k mem] by simp
      then have "(key, row_item now (item_row ts p i)) \<in> set ?al"
        unfolding set_al using mem by force
      then show "key \<in> fst ` set ?al" by (rule image_eqI[rotated]) simp
    qed
    then show ?thesis using Some by (simp add: fold_restore_item map_add_def)
  qed
qed

lemma saveState_fleet_state:
  "fleet_state (saveState ts d a) =
   insert_or_replace fs_id
     \<lparr>fs_id = currentPath a, fs_counter = counter (state a), fs_agents = agents (state a),
      fs_agent_type = agentType (state a), fs_created_at = ts, fs_updated_at = ts\<rparr>
     (fleet_state d)"
  by (simp add: saveState_def Let_def save_item_fleet_state)

lemma saved_state_row:
  "first_row (filter (\<lambda>r. fs_id r = currentPath a) (fleet_state (saveState ts d a))) =
   Some \<lparr>fs_id = currentPath a, fs_counter = counter (state a), fs_agents = agents (state a),
      fs_agent_type = agentType (state a), fs_created_at = ts, fs_updated_at = ts\<rparr>"
  by (simp add: saveState_fleet_state insert_or_replace_def first_row_def)

lemma saveState_inventory_items:
  "inventory_items (saveState ts d a) =
   inventory_items (fold (save_item ts (currentPath a)) (inventory (state a)) d)"
proof -
  have c: "inventory_items d1 = inventory_items d2 \<Longrightarrow>
        inventory_items (fold (save_item ts p) m d1) =
        inventory_items (fold (save_item ts p) m d2)" for p m d1 d2
  proof (induction m arbitrary: d1 d2)
    case Nil
    then show ?case by simp
  next
    case (Cons e m)
    have "inventory_items (save_item ts p e d1) = inventory_items (save_item ts p e d2)"
      using Cons.prems by (simp add: save_item_rows)
    then show ?case by (simp add: Cons.IH[of "save_item ts p e d1" "save_item ts p e d2"])
  qed
  show ?thesis unfolding saveState_def Let_def by (rule c) simp
qed

lemma new_Set_distinct: "distinct xs \<Longrightarrow> new_Set xs = xs"
  by (simp add: new_Set_def distinct_remdups_id)

lemma persisted_fields_lastUpdated:
  "persisted_fields (i\<lparr>lastUpdated := t\<rparr>) = persisted_fields i"
  by (simp add: persisted_fields_def)

lemma load_after_save:
  assumes k: "keyed_by_sku (inventory (state a))"
      and o: "only_rows_of (inventory (state a)) (currentPath a) d"
      and ds: "distinct (agents (state a))"
      and a': "a' = loadStateFromStorage now (saveState ts d a) (new_agent\<lparr>currentPath := currentPath a\<rparr>)"
  shows "counter (state a') = counter (state a)"
    and "agents (state a') = agents (state a)"
    and "agentType (state a') = agentType (state a)"
    and "map_of (inventory (state a')) key =
         map_option (\<lambda>i. i\<lparr>lastUpdated := now\<rparr>) (map_of (inventory (state a)) key)"
proof -
  have inv0: "inventory (state new_agent) = []" by (simp add: new_agent_def)
  show "counter (state a') = counter (state a)"
    unfolding a' by (simp add: loadStateFromStorage_def Let_def saved_state_row or_default_def)
  show "agents (state a') = agents (state a)"
    unfolding a' using ds
    by (simp add: loadStateFromStorage_def Let_def saved_state_row new_Set_distinct)
  show "agentType (state a') = agentType (state a)"
    unfolding a' by (simp add: loadStateFromStorage_def Let_def saved_state_row)
  show "map_of (inventory (state a')) key =
         map_option (\<lambda>i. i\<lparr>lastUpdated := now\<rparr>) (map_of (inventory (state a)) key)"
    unfolding a'
    by (simp add: loadStateFromStorage_def Let_def saved_state_row saveState_inventory_items
        inv0 loaded_inventory[OF k o])
qed

text \<open>
  Claim C2, amended.  Saving an agent and loading the store into a new instance for the
  same path restores the counter, the children, the agent type, and of every inventory
  item the SKU, the name, the stock and the threshold.  \<open>lastUpdated\<close> has no column:
  every loaded item carries the clock of the load.  The inventory is a map keyed by SKU,
  the children are a set, and the store holds no other item rows for this path.
\<close>

theorem save_load_round_trip:
  "keyed_by_sku (inventory (state a)) \<Longrightarrow>
   only_rows_of (inventory (state a)) (currentPath a) d \<Longrightarrow>
   distinct (agents (state a)) \<Longrightarrow>
   (let a' = loadStateFromStorage now (saveState ts d a)
               (new_agent\<lparr>currentPath := currentPath a\<rparr>)
    in counter (state a') = counter (state a) \<and>
       agents (state a') = agents (state a) \<and>
       agentType (state a') = agentType (state a) \<and>
       (\<forall>k. map_option persisted_fields (map_of (inventory (state a')) k) =
            map_option persisted_fields (map_of (inventory (state a)) k)) \<and>
       (\<forall>k i. map_of (inventory (state a')) k = Some i \<longrightarrow> lastUpdated i = now))"
proof -
  assume h: "keyed_by_sku (inventory (state a))"
    "only_rows_of (inventory (state a)) (currentPath a) d" "distinct (agents (state a))"
  define a' where "a' = loadStateFromStorage now (saveState ts d a)
               (new_agent\<lparr>currentPath := currentPath a\<rparr>)"
  note l = load_after_save[OF h a'_def]
  have "map_option persisted_fields (map_of (inventory (state a')) k) =
            map_option persisted_fields (map_of (inventory (state a)) k)" for k
    by (simp add: l(4) option.map_comp comp_def persisted_fields_lastUpdated)
  moreover have "map_of (inventory (state a')) k = Some i \<longrightarrow> lastUpdated i = now" for k i
    by (auto simp: l(4))
  ultimately show ?thesis
    unfolding Let_def a'_def[symmetric] using l(1-3) by simp
qed

lemma example_agent_ok:
  "keyed_by_sku (inventory (state example_agent))"
  "only_rows_of (inventory (state example_agent)) (currentPath example_agent) empty_db"
  "distinct (agents (state example_agent))"
  by (simp_all add: example_agent_def keyed_by_sku_def only_rows_of_def empty_db_def
      new_agent_def example_item_def)

theorem save_load_round_trip_witness:
  "counter (state (loadStateFromStorage (js ''t1'') (saveState 1 empty_db example_agent)
               (new_agent\<lparr>currentPath := currentPath example_agent\<rparr>))) = 3 \<and>
   agents (state (loadStateFromStorage (js ''t1'') (saveState 1 empty_db example_agent)
               (new_agent\<lparr>currentPath := currentPath example_agent\<rparr>))) = [js ''b'']"
  using save_load_round_trip[OF example_agent_ok, of "js ''t1''" 1]
  by (simp add: Let_def example_agent_def new_agent_def)

text \<open>
  Claim C2 as stated fails on \<open>lastUpdated\<close>: an item saved with \<open>t0\<close> and loaded at
  \<open>t1\<close> comes back with \<open>t1\<close>.
\<close>

theorem round_trip_changes_lastUpdated:
  "map_option lastUpdated (map_of (inventory (state example_agent)) (js ''SKU-1'')) = Some (js ''t0'') \<and>
   map_option lastUpdated
     (map_of (inventory (state (loadStateFromStorage (js ''t1'') (saveState 1 empty_db example_agent)
               (new_agent\<lparr>currentPath := currentPath example_agent\<rparr>)))) (js ''SKU-1'')) = Some (js ''t1'') \<and>
   js ''t1'' \<noteq> js ''t0''"
  using load_after_save(4)[OF example_agent_ok refl, of "js ''t1''" 1 "js ''SKU-1''"]
  by (simp add: example_agent_def new_agent_def example_item_def js_def)

lemma handleDeleteSubtree_result:
  "handleDeleteSubtree ts d a =
     (a\<lparr>state := (state a)\<lparr>agents := [], counter := 0, messages := [], websockets := []\<rparr>\<rparr>,
      saveState ts d (a\<lparr>state := (state a)\<lparr>agents := [], counter := 0, messages := []\<rparr>\<rparr>),
      map (\<lambda>ws. Close (ws_id ws)) (websockets (state a)), 200)"
  by (simp add: handleDeleteSubtree_def Let_def)

text \<open>
  Claim C6.  \<open>handleDeleteSubtree\<close> on an agent at \<open>/a\<close> with one child, counter 3, one
  open subscription and one inventory item: the children and the counter are cleared and
  the subscription is closed, and a new instance loaded from the store has no children and
  counter 0.  The inventory is not cleared: the item is still in memory, its row is
  written again, and the new instance loads it.
\<close>

theorem deleteSubtree_keeps_inventory:
  "(let (a1, d1, es, status) = handleDeleteSubtree 1 empty_db example_agent;
        a' = loadStateFromStorage (js ''t1'') d1 (new_agent\<lparr>currentPath := currentPath example_agent\<rparr>)
    in agents (state a1) = [] \<and> counter (state a1) = 0 \<and> websockets (state a1) = [] \<and>
       es = [Close 1] \<and> status = 200 \<and>
       agents (state a') = [] \<and> counter (state a') = 0 \<and>
       map_option currentStock (map_of (inventory (state a')) (js ''SKU-1'')) = Some 5 \<and>
       map_option currentStock (map_of (inventory (state a1)) (js ''SKU-1'')) = Some 5)"
proof -
  let ?a = "example_agent\<lparr>state := (state example_agent)\<lparr>agents := [], counter := 0, messages := []\<rparr>\<rparr>"
  have ok: "keyed_by_sku (inventory (state ?a))"
    "only_rows_of (inventory (state ?a)) (currentPath ?a) empty_db"
    "distinct (agents (state ?a))"
    using example_agent_ok by simp_all
  have p: "currentPath ?a = currentPath example_agent" by simp
  note l = load_after_save[OF ok refl, of "js ''t1''" 1, unfolded p]
  show ?thesis
    unfolding handleDeleteSubtree_result Let_def prod.case
    apply (intro conjI)
            apply (simp_all add: l)
      apply (simp_all add: example_agent_def example_item_def)
    done
qed

subsection \<open>Children\<close>

lemma send_all_effects: "snd (send_all f wss a) = delivered f wss"
  by (induction wss arbitrary: a)
     (auto simp: delivered_def can_receive_def sendToWebSocket_def case_prod_beta Let_def)


lemma broadcastToWebSockets_effects:
  "snd (broadcastToWebSockets f a) = delivered f (websockets (state a))"
  by (simp add: broadcastToWebSockets_def send_all_effects)




lemma validateInput_valid:
  "AgentNameSchema n = Inr n \<Longrightarrow> validateInput AgentNameSchema n = Inr n"
  by (simp add: validateInput_def)

text \<open>
  Claim C4.  In an agent whose children are valid names, creating a child whose trimmed
  name is already a child throws \<open>AGENT_EXISTS\<close> with status 409; \<open>createAgent\<close> turns
  it into one \<open>error\<close> frame per receiving subscription and leaves the children, the
  counter and the store as they were (the agent differs at most in the subscriptions
  dropped by a failing send).
\<close>

theorem create_existing_child_fails:
  "valid_children a \<Longrightarrow> trim nm \<in> set (agents (state a)) \<Longrightarrow>
   createAgent_try nm ts d a =
     Inl \<lparr>code = js ''AGENT_EXISTS'', message = exists_message (trim nm), statusCode = 409,
          details = []\<rparr> \<and>
   (let r = createAgent nm ts d a
    in agents (state (fst r)) = agents (state a) \<and>
       counter (state (fst r)) = counter (state a) \<and>
       only_websockets_differ a (fst r) \<and>
       fst (snd r) = d \<and>
       snd (snd r) = delivered (ErrorFrame (exists_message (trim nm))) (websockets (state a)))"
proof -
  assume v: "valid_children a" and m: "trim nm \<in> set (agents (state a))"
  from v m have "AgentNameSchema (trim nm) = Inr (trim nm)"
    by (auto simp: valid_children_def list_all_iff)
  then have t: "createAgent_try nm ts d a =
     Inl \<lparr>code = js ''AGENT_EXISTS'', message = exists_message (trim nm), statusCode = 409,
          details = []\<rparr>"
    using m by (simp add: createAgent_try_def validateInput_valid exists_message_def)
  let ?b = "broadcastToWebSockets (ErrorFrame (exists_message (trim nm))) a"
  have c: "createAgent nm ts d a = (fst ?b, d, snd ?b)"
    by (simp add: createAgent_def t case_prod_beta Let_def)
  note o = owd_broadcastToWebSockets[of a "ErrorFrame (exists_message (trim nm))"]
  show ?thesis
    unfolding Let_def c using t o owd_fields(1,2)[OF o]
    by (simp add: broadcastToWebSockets_effects)
qed

lemma createAgent_accepts:
  assumes v: "validateInput AgentNameSchema (trim nm) = Inr v"
      and n: "v \<notin> set (agents (state a))"
  shows "agents (state (fst (createAgent nm ts d a))) = agents (state a) @ [v]"
proof -
  let ?a1 = "a\<lparr>state := (state a)\<lparr>agents := set_add v (agents (state a))\<rparr>\<rparr>"
  let ?a2 = "?a1\<lparr>cache := set_delete (js ''loaded:'' @ currentPath ?a1)
                                  (set_delete (js ''state:'' @ currentPath ?a1) (cache ?a1))\<rparr>"
  let ?a3 = "fst (broadcastToWebSockets (AgentCreated v) ?a2)"
  have "fst (createAgent nm ts d a) = fst (broadcastState ?a3)"
    using v n by (simp add: createAgent_def createAgent_try_def case_prod_beta Let_def)
  moreover have "agents (state (fst (broadcastState ?a3))) = agents (state ?a2)"
    using owd_fields(2)[OF owd_broadcastState[of ?a3]]
          owd_fields(2)[OF owd_broadcastToWebSockets[of ?a2 "AgentCreated v"]]
    by simp
  ultimately show ?thesis using n by (simp add: set_add_def)
qed

lemma valid_children_new: "valid_children new_agent"
  by (simp add: valid_children_def new_agent_def)

lemma createAgent_try_valid:
  assumes "valid_children a" and "createAgent_try nm ts d a = Inr (a', d', es)"
  shows "valid_children a'"
proof -
  from assms(2) obtain v where v: "validateInput AgentNameSchema (trim nm) = Inr v"
    by (auto simp: createAgent_try_def split: sum.splits)
  then have vv: "AgentNameSchema v = Inr v"
    by (auto simp: validateInput_def AgentNameSchema_def Let_def split: sum.splits if_splits)
  let ?a1 = "a\<lparr>state := (state a)\<lparr>agents := set_add v (agents (state a))\<rparr>\<rparr>"
  let ?a2 = "?a1\<lparr>cache := set_delete (js ''loaded:'' @ currentPath ?a1)
                                  (set_delete (js ''state:'' @ currentPath ?a1) (cache ?a1))\<rparr>"
  let ?a3 = "fst (broadcastToWebSockets (AgentCreated v) ?a2)"
  have a': "a' = fst (broadcastState ?a3)"
    using assms(2) v by (simp add: createAgent_try_def case_prod_beta Let_def split: if_splits)
  have "agents (state a') = agents (state ?a2)"
    unfolding a'
    using owd_fields(2)[OF owd_broadcastState[of ?a3]]
          owd_fields(2)[OF owd_broadcastToWebSockets[of ?a2 "AgentCreated v"]]
    by simp
  then show ?thesis
    using assms(1) vv by (auto simp: valid_children_def set_add_def list_all_iff)
qed

lemma example_agent_valid: "valid_children example_agent"
  by (simp add: valid_children_def example_agent_def new_agent_def AgentNameSchema_def
      agent_name_regex_def agent_name_char_def js_def)

lemma trim_example: "trim (js '' b '') = js ''b''"
  by (simp add: trim_def js_def isWhiteSpace_def)

theorem create_existing_child_fails_witness:
  "createAgent_try (js '' b '') 1 empty_db example_agent =
     Inl \<lparr>code = js ''AGENT_EXISTS'', message = exists_message (js ''b''), statusCode = 409,
          details = []\<rparr> \<and>
   agents (state (fst (createAgent (js '' b '') 1 empty_db example_agent))) = [js ''b''] \<and>
   counter (state (fst (createAgent (js '' b '') 1 empty_db example_agent))) = 3"
  using create_existing_child_fails[OF example_agent_valid, of "js '' b ''" 1 empty_db]
  by (simp add: trim_example Let_def example_agent_def new_agent_def)






lemma AgentNameSchema_accepts:
  "(AgentNameSchema s = Inr s) = (1 \<le> length s \<and> length s \<le> 32 \<and> list_all agent_name_char s)"
  by (cases s) (auto simp: AgentNameSchema_def agent_name_regex_def Let_def)

lemma AgentNameSchema_cases:
  "AgentNameSchema s = Inr s \<or> (\<exists>issues. issues \<noteq> [] \<and> AgentNameSchema s = Inl issues)"
  by (auto simp: AgentNameSchema_def Let_def)

lemma spec_char_is_name_char: "spec_segment_char c \<Longrightarrow> agent_name_char c"
  by (auto simp: spec_segment_char_def agent_name_char_def isWhiteSpace_def)

lemma dot_slash_not_name_char: "\<not> agent_name_char 0x2E" "\<not> agent_name_char 0x2F"
  by (simp_all add: agent_name_char_def isWhiteSpace_def)

text \<open>
  What \<open>createAgent\<close> accepts: a name that, after trimming, has 1 to 32 characters, each
  a letter, a digit, an underscore, a dash or a white-space character in the sense of
  \<open>\s\<close>.  Every other name is rejected with \<open>VALIDATION_ERROR\<close> (status 400).  Every
  segment of the specification's class is accepted, a valid name of length 32 is accepted,
  a name of length 33 is rejected, and so is a name that contains \<open>.\<close> or \<open>/\<close>.
\<close>

lemma agent_name_validation:
  "((validateInput AgentNameSchema (trim nm) = Inr (trim nm)) =
      (1 \<le> length (trim nm) \<and> length (trim nm) \<le> 32 \<and> list_all agent_name_char (trim nm))) \<and>
   (validateInput AgentNameSchema (trim nm) \<noteq> Inr (trim nm) \<longrightarrow>
      (\<exists>issues. issues \<noteq> [] \<and>
         validateInput AgentNameSchema (trim nm) = Inl (validation_error issues) \<and>
         createAgent_try nm ts d a = Inl (validation_error issues))) \<and>
   (spec_segment (trim nm) \<longrightarrow> validateInput AgentNameSchema (trim nm) = Inr (trim nm)) \<and>
   (length (trim nm) = 32 \<and> list_all agent_name_char (trim nm) \<longrightarrow>
      validateInput AgentNameSchema (trim nm) = Inr (trim nm)) \<and>
   (length (trim nm) = 33 \<longrightarrow> validateInput AgentNameSchema (trim nm) \<noteq> Inr (trim nm)) \<and>
   (0x2E \<in> set (trim nm) \<or> 0x2F \<in> set (trim nm) \<longrightarrow>
      validateInput AgentNameSchema (trim nm) \<noteq> Inr (trim nm))"
proof -
  let ?s = "trim nm"
  have v: "(validateInput AgentNameSchema ?s = Inr ?s) = (AgentNameSchema ?s = Inr ?s)"
    by (auto simp: validateInput_def split: sum.splits)
  have acc: "(validateInput AgentNameSchema ?s = Inr ?s) =
      (1 \<le> length ?s \<and> length ?s \<le> 32 \<and> list_all agent_name_char ?s)"
    unfolding v by (rule AgentNameSchema_accepts)
  have rej: "validateInput AgentNameSchema ?s \<noteq> Inr ?s \<longrightarrow>
      (\<exists>issues. issues \<noteq> [] \<and>
         validateInput AgentNameSchema ?s = Inl (validation_error issues) \<and>
         createAgent_try nm ts d a = Inl (validation_error issues))"
    using AgentNameSchema_cases[of ?s]
    by (auto simp: validateInput_def validation_error_def createAgent_try_def)
  have spec: "spec_segment ?s \<longrightarrow> validateInput AgentNameSchema ?s = Inr ?s"
    unfolding acc by (auto simp: spec_segment_def list_all_iff spec_char_is_name_char)
  have dots: "0x2E \<in> set ?s \<or> 0x2F \<in> set ?s \<longrightarrow> validateInput AgentNameSchema ?s \<noteq> Inr ?s"
    unfolding acc using dot_slash_not_name_char by (auto simp: list_all_iff)
  show ?thesis
    using acc rej spec dots by simp
qed

lemma trim_examples:
  "trim name32 = name32" "trim name33 = name33" "trim (js ''a.b'') = js ''a.b''"
  "trim (js ''warehouse-ny'') = js ''warehouse-ny''" "trim tab_name = tab_name"
  by (simp_all add: trim_def js_def isWhiteSpace_def name32_def name33_def tab_name_def)

lemma agent_name_validation_examples:
  "validateInput AgentNameSchema (trim (js ''warehouse-ny'')) = Inr (js ''warehouse-ny'') \<and>
   validateInput AgentNameSchema (trim name32) = Inr name32 \<and>
   validateInput AgentNameSchema (trim name33) \<noteq> Inr name33 \<and>
   validateInput AgentNameSchema (trim (js ''a.b'')) \<noteq> Inr (js ''a.b'')"
proof -
  have h1: "spec_segment (js ''warehouse-ny'')"
    by (simp add: js_def spec_segment_def spec_segment_char_def)
  have h2: "length name32 = 32 \<and> list_all agent_name_char name32"
    by (simp add: js_def name32_def agent_name_char_def)
  have h3: "length name33 = 33"
    by (simp add: js_def name33_def)
  have h4: "0x2E \<in> set (js ''a.b'') \<or> 0x2F \<in> set (js ''a.b'')"
    by (simp add: js_def)
  note t1 = agent_name_validation[of "js ''warehouse-ny''" 1 empty_db new_agent,
              unfolded trim_examples, THEN conjunct2, THEN conjunct2, THEN conjunct1, rule_format, OF h1]
  note t2 = agent_name_validation[of name32 1 empty_db new_agent,
              unfolded trim_examples, THEN conjunct2, THEN conjunct2, THEN conjunct2,
              THEN conjunct1, rule_format, OF h2]
  note t3 = agent_name_validation[of name33 1 empty_db new_agent,
              unfolded trim_examples, THEN conjunct2, THEN conjunct2, THEN conjunct2,
              THEN conjunct2, THEN conjunct1, rule_format, OF h3]
  note t4 = agent_name_validation[of "js ''a.b''" 1 empty_db new_agent,
              unfolded trim_examples, THEN conjunct2, THEN conjunct2, THEN conjunct2,
              THEN conjunct2, THEN conjunct2, rule_format, OF h4]
  show ?thesis
    unfolding trim_examples using t1 t2 t3 t4 by (intro conjI)
qed

text \<open>
  Claim C7.  The class of the schema is wider than the one its own message names
  (\<open>alphanumeric characters, spaces, dashes, and underscores\<close>) and than the pattern
  of the form in \<open>AgentForm.tsx\<close>: the name \<open>a<TAB>b\<close> is outside
  \<open>[A-Za-z0-9 _\-]{1,32}\<close>, yet it passes the validation and \<open>createAgent\<close> adds it as
  a child.
\<close>

theorem tab_accepted_outside_spec_class:
  "validateInput AgentNameSchema (trim tab_name) = Inr tab_name \<and>
   \<not> spec_segment (trim tab_name) \<and>
   agents (state (fst (createAgent tab_name 1 empty_db new_agent))) = [tab_name]"
proof -
  have v: "validateInput AgentNameSchema (trim tab_name) = Inr tab_name"
    unfolding trim_examples
    by (simp add: tab_name_def validateInput_def AgentNameSchema_def agent_name_regex_def
        agent_name_char_def isWhiteSpace_def)
  have s: "\<not> spec_segment (trim tab_name)"
    unfolding trim_examples by (simp add: tab_name_def spec_segment_def spec_segment_char_def)
  have "agents (state (fst (createAgent tab_name 1 empty_db new_agent))) =
        agents (state new_agent) @ [tab_name]"
    by (rule createAgent_accepts[OF v]) (simp add: new_agent_def)
  then show ?thesis using v s by (simp add: new_agent_def)
qed

lemma deleteAgent_agents:
  "agents (state (fst (deleteAgent nm rpc ts d a))) = removeAll nm (agents (state a))"
proof (cases "nm \<in> set (agents (state a))")
  case False
  then show ?thesis
    using owd_fields(2)[OF owd_broadcastToWebSockets[of a
             "ErrorFrame (js ''Agent '' @ [0x22] @ nm @ [0x22] @ js '' does not exist'')"]]
    by (simp add: deleteAgent_def case_prod_beta Let_def)
next
  case True
  let ?a1 = "a\<lparr>state := (state a)\<lparr>agents := set_delete nm (agents (state a))\<rparr>\<rparr>"
  show ?thesis
  proof (cases rpc)
    case (Responded st)
    let ?a2 = "?a1\<lparr>cache := set_delete (js ''state:'' @ currentPath ?a1) (cache ?a1)\<rparr>"
    let ?a3 = "fst (broadcastToWebSockets (AgentDeleted nm) ?a2)"
    show ?thesis
      using True Responded
            owd_fields(2)[OF owd_broadcastState[of ?a3]]
            owd_fields(2)[OF owd_broadcastToWebSockets[of ?a2 "AgentDeleted nm"]]
      by (simp add: deleteAgent_def case_prod_beta Let_def set_delete_def)
  next
    case Raised
    let ?a2 = "fst (broadcastToWebSockets (MessageFrame (js ''system'')
                                  (js ''Deleted '' @ nm @ js '' (cascade may have failed)'')) ?a1)"
    show ?thesis
      using True Raised
            owd_fields(2)[OF owd_broadcastState[of ?a2]]
            owd_fields(2)[OF owd_broadcastToWebSockets[of ?a1 "MessageFrame (js ''system'')
                                  (js ''Deleted '' @ nm @ js '' (cascade may have failed)'')"]]
      by (simp add: deleteAgent_def case_prod_beta Let_def set_delete_def)
  qed
qed

lemma deleteAgent_valid:
  "valid_children a \<Longrightarrow> valid_children (fst (deleteAgent nm rpc ts d a))"
  by (simp add: valid_children_def deleteAgent_agents list_all_iff)

subsection \<open>Chat statistics\<close>

lemma saveChatStatistics_stats:
  "chatStats (fst (saveChatStatistics today d a)) = (chatStats a)\<lparr>successRate := rate_of (chatStats a)\<rparr>"
  by (simp add: saveChatStatistics_def rate_of_def Let_def)

lemma saveChatStatistics_store: "snd (saveChatStatistics today d a) = d"
  by (simp add: saveChatStatistics_def Let_def exec_accepts_def)

lemma updateChatStats_stats:
  "chatStats (fst (updateChatStats ev today d a)) = stats_step ev (chatStats a)"
proof -
  let ?cs1 = "(case ev of
                   message_ev \<Rightarrow> (chatStats a)\<lparr>messagesToday := messagesToday (chatStats a) + 1\<rparr>
                 | action_ev \<Rightarrow> (chatStats a)\<lparr>actionsExecuted := actionsExecuted (chatStats a) + 1\<rparr>
                 | success_ev \<Rightarrow> (chatStats a)\<lparr>successfulActions := successfulActions (chatStats a) + 1\<rparr>
                 | failure_ev \<Rightarrow> chatStats a)"
  let ?s = "saveChatStatistics today d (a\<lparr>chatStats := ?cs1\<rparr>)"
  have "fst (updateChatStats ev today d a) = fst (broadcastChatStats (fst ?s))"
    by (simp add: updateChatStats_def case_prod_beta Let_def)
  moreover have "chatStats (fst (broadcastChatStats (fst ?s))) = chatStats (fst ?s)"
    unfolding broadcastChatStats_def by (rule owd_fields(7)[OF owd_broadcastToWebSockets])
  ultimately show ?thesis
    by (simp add: saveChatStatistics_stats stats_step_def Let_def)
qed

lemma updateChatStats_store: "fst (snd (updateChatStats ev today d a)) = d"
  by (simp add: updateChatStats_def case_prod_beta Let_def saveChatStatistics_store)

lemma stats_step_rate: "successRate (stats_step ev cs) = rate_of (stats_step ev cs)"
  by (cases ev) (simp_all add: stats_step_def rate_of_def Let_def)

lemma stats_step_consistent:
  "stats_consistent cs \<Longrightarrow> ev \<noteq> success_ev \<Longrightarrow> stats_consistent (stats_step ev cs)"
  unfolding stats_consistent_def
  by (cases ev) (simp_all add: stats_step_def rate_of_def Let_def)

lemma action_then_outcome_consistent:
  "stats_consistent cs \<Longrightarrow>
   stats_consistent (stats_step (if ok then success_ev else failure_ev) (stats_step action_ev cs))"
  unfolding stats_consistent_def
  by (simp add: stats_step_def rate_of_def Let_def)

lemma executeChatActions_consistent:
  "stats_consistent (chatStats a) \<Longrightarrow>
   stats_consistent (chatStats (fst (executeChatActions oks today d a)))"
proof (induction oks arbitrary: a d)
  case Nil
  then show ?case by simp
next
  case (Cons ok oks)
  let ?r1 = "updateChatStats action_ev today d a"
  let ?r2 = "updateChatStats (if ok then success_ev else failure_ev) today (fst (snd ?r1)) (fst ?r1)"
  have "stats_consistent (chatStats (fst ?r2))"
    using Cons.prems by (simp only: updateChatStats_stats action_then_outcome_consistent)
  then have "stats_consistent (chatStats (fst (executeChatActions oks today (fst (snd ?r2)) (fst ?r2))))"
    by (rule Cons.IH)
  then show ?case by (simp add: case_prod_beta Let_def)
qed

lemma chat_reachable_consistent: "chat_reachable cs \<Longrightarrow> stats_consistent cs"
proof (induction rule: chat_reachable.induct)
  case initial
  show ?case by (simp add: stats_consistent_def new_agent_def rate_of_def)
next
  case (chat_message a today d)
  then show ?case by (simp add: updateChatStats_stats stats_step_consistent)
next
  case (chat_actions a oks today d)
  from chat_actions(2) show ?case by (rule executeChatActions_consistent)
next
  case (action_running a today d)
  then show ?case by (simp add: updateChatStats_stats stats_step_consistent)
qed

lemma consistent_rate_bounds:
  assumes "stats_consistent cs"
  shows "0 \<le> successRate cs \<and> successRate cs \<le> 100"
proof (cases "actionsExecuted cs > 0")
  case False
  then show ?thesis using assms by (simp add: stats_consistent_def rate_of_def)
next
  case True
  have le: "real (successfulActions cs) \<le> real (actionsExecuted cs)"
    using assms by (simp add: stats_consistent_def)
  have pos: "0 < real (actionsExecuted cs)" using True by simp
  define x where "x = real (successfulActions cs) / real (actionsExecuted cs)"
  have "x \<le> 1"
    unfolding x_def using le pos by (simp add: divide_le_eq_1)
  moreover have "0 \<le> x"
    unfolding x_def by simp
  moreover have "successRate cs = x * 100"
    unfolding x_def using assms True by (simp add: stats_consistent_def rate_of_def)
  ultimately show ?thesis by simp
qed

text \<open>
  Claim C3.  After every \<open>updateChatStats\<close> the success rate recorded in \<open>chatStats\<close> is
  \<open>successfulActions / actionsExecuted * 100\<close> when \<open>actionsExecuted > 0\<close> and 0
  otherwise; and the counters that the agent can reach have a rate between 0 and 100.
\<close>

theorem success_rate_formula_and_bounds:
  "successRate (chatStats (fst (updateChatStats ev today d a))) =
     (if actionsExecuted (chatStats (fst (updateChatStats ev today d a))) > 0
      then (real (successfulActions (chatStats (fst (updateChatStats ev today d a)))) /
            real (actionsExecuted (chatStats (fst (updateChatStats ev today d a))))) * 100
      else 0) \<and>
   (chat_reachable cs \<longrightarrow> 0 \<le> successRate cs \<and> successRate cs \<le> 100)"
proof (intro conjI impI)
  show "successRate (chatStats (fst (updateChatStats ev today d a))) =
     (if actionsExecuted (chatStats (fst (updateChatStats ev today d a))) > 0
      then (real (successfulActions (chatStats (fst (updateChatStats ev today d a)))) /
            real (actionsExecuted (chatStats (fst (updateChatStats ev today d a))))) * 100
      else 0)"
    using stats_step_rate[of ev "chatStats a"]
    by (simp only: updateChatStats_stats rate_of_def)
next
  assume "chat_reachable cs"
  then have c: "stats_consistent cs" by (rule chat_reachable_consistent)
  show "0 \<le> successRate cs" using consistent_rate_bounds[OF c] by simp
  show "successRate cs \<le> 100" using consistent_rate_bounds[OF c] by simp
qed

theorem success_rate_formula_and_bounds_witness:
  "chat_reachable (chatStats (fst (executeChatActions [True] (js ''2026-01-01'') empty_db new_agent))) \<and>
   successRate (chatStats (fst (executeChatActions [True] (js ''2026-01-01'') empty_db new_agent))) = 100 \<and>
   0 \<le> successRate (chatStats (fst (executeChatActions [True] (js ''2026-01-01'') empty_db new_agent))) \<and>
   successRate (chatStats (fst (executeChatActions [True] (js ''2026-01-01'') empty_db new_agent))) \<le> 100"
proof -
  let ?cs = "chatStats (fst (executeChatActions [True] (js ''2026-01-01'') empty_db new_agent))"
  have r: "chat_reachable ?cs"
    by (rule chat_reachable.chat_actions[OF chat_reachable.initial])
  have v: "successRate ?cs = 100"
    by (simp add: case_prod_beta Let_def updateChatStats_stats stats_step_def rate_of_def new_agent_def)
  show ?thesis
    using r v success_rate_formula_and_bounds[of message_ev "js ''2026-01-01''" empty_db new_agent ?cs]
    by simp
qed

subsection \<open>Routing\<close>

lemma split_nonempty: "split c s \<noteq> []"
  by (induction s) (auto split: list.splits)

lemma split_snoc_sep: "split c (s @ [c]) = split c s @ [[]]"
proof (induction s)
  case Nil
  show ?case by simp
next
  case (Cons x xs)
  then show ?case
    using split_nonempty[of c xs] by (auto split: list.splits)
qed

lemma segments_trailing_slash:
  "filterBoolean (split c (s @ [c])) = filterBoolean (split c s)"
  by (simp add: split_snoc_sep filterBoolean_def)

lemma startsWith_append: "startsWith p pre \<Longrightarrow> startsWith (p @ q) pre"
proof -
  assume h: "startsWith p pre"
  then have "length (take (length pre) p) = length pre"
    by (simp add: startsWith_def)
  then have "length pre \<le> length p" by simp
  then show ?thesis using h unfolding startsWith_def by simp
qed


lemma startsWith_snoc_back:
  assumes "startsWith (p @ [c]) (q @ [c])" and "p \<noteq> q"
  shows "startsWith p (q @ [c])"
proof (cases "length q < length p")
  case True
  then show ?thesis using assms(1) by (simp add: startsWith_def)
next
  case False
  then have le: "length p \<le> length q" by simp
  have "take (Suc (length q)) (p @ [c]) = p @ [c]" using le by simp
  then have "p @ [c] = q @ [c]" using assms(1) by (simp add: startsWith_def)
  then show ?thesis using assms(2) by simp
qed

lemma slash: "js ''/'' = [0x2F]" by (simp add: js_def)

lemma tenant_prefix: "js ''/tenant/'' = js ''/tenant'' @ [0x2F]" by (simp add: js_def)

lemma segments_slash: "segments (p @ js ''/'') = segments p"
  by (simp add: segments_def slash segments_trailing_slash)

lemma tenant_prefix_slash:
  "p \<noteq> js ''/tenant'' \<Longrightarrow>
   startsWith (p @ js ''/'') (js ''/tenant/'') = startsWith p (js ''/tenant/'')"
  unfolding slash tenant_prefix
  using startsWith_append[of p "js ''/tenant'' @ [0x2F]" "[0x2F]"]
        startsWith_snoc_back[of p "0x2F" "js ''/tenant''"]
  by blast

lemma derive_tenant_alt:
  "derive_tenant req =
     (if subdomain_tenant req then
        (Some (split 0x2E (case host_header req of None \<Rightarrow> [] | Some h \<Rightarrow> h) ! 0), path req)
      else if startsWith (path req) (js ''/tenant/'') then
        (if 2 \<le> length (segments (path req))
         then (Some (segments (path req) ! 1), js ''/'' @ join (js ''/'') (drop 2 (segments (path req))))
         else (None, path req))
      else
        (if 1 \<le> length (segments (path req))
         then (Some (segments (path req) ! 0), js ''/'' @ join (js ''/'') (drop 1 (segments (path req))))
         else (None, path req)))"
  by (simp add: derive_tenant_def subdomain_tenant_def segments_def Let_def)

lemma subdomain_tenant_slash: "subdomain_tenant (with_trailing_slash req) = subdomain_tenant req"
  by (simp add: subdomain_tenant_def with_trailing_slash_def)

lemma derive_tenant_slash:
  assumes "\<not> subdomain_tenant req" and "tenant_in_path (path req)" and "path req \<noteq> js ''/tenant''"
  shows "derive_tenant (with_trailing_slash req) = derive_tenant req"
proof -
  have p: "path (with_trailing_slash req) = path req @ js ''/''"
    by (simp add: with_trailing_slash_def)
  have h: "host_header (with_trailing_slash req) = host_header req"
    by (simp add: with_trailing_slash_def)
  show ?thesis
    using assms(1,2)
    unfolding derive_tenant_alt subdomain_tenant_slash p segments_slash h
      tenant_prefix_slash[OF assms(3)] tenant_in_path_def
    by (simp split: if_splits)
qed

lemma derive_tenant_nonempty:
  assumes "\<not> subdomain_tenant req" and "tenant_in_path (path req)"
  shows "snd (derive_tenant req) \<noteq> []"
  using assms unfolding derive_tenant_alt tenant_in_path_def
  by (simp add: slash split: if_splits)

lemma route_handler_cong:
  assumes "derive_tenant r' = derive_tenant r" and "snd (derive_tenant r) \<noteq> []"
      and "req_method r' = req_method r" and "upgrade_header r' = upgrade_header r"
  shows "owner_key (route_handler r') = owner_key (route_handler r)"
    and "fleet_path_header (route_handler r') = fleet_path_header (route_handler r)"
    and "upgrade_header r \<noteq> Some (js ''websocket'') \<Longrightarrow> route_handler r' = route_handler r"
  using assms(2)
  unfolding route_handler_def assms(1) assms(3) assms(4)
  by (simp_all add: case_prod_beta Let_def or_str_def handleWebSocketUpgrade_def owner_key_def
      fleet_path_header_def)

text \<open>
  When the tenant is taken from the path (the host names no tenant; the path holds an id
  after \<open>/tenant/\<close>, or else a first segment; the path is not the bare \<open>/tenant\<close>), a
  request and the same request with a trailing slash are forwarded to the same durable
  object with the same \<open>x-fleet-path\<close>, and outside a WebSocket upgrade the handler's
  whole result is the same: both branches rebuild the path from its non-empty segments.
\<close>

lemma trailing_slash_same_owner:
  "\<not> subdomain_tenant req \<Longrightarrow> tenant_in_path (path req) \<Longrightarrow> path req \<noteq> js ''/tenant'' \<Longrightarrow>
   owner_key (route_handler (with_trailing_slash req)) = owner_key (route_handler req) \<and>
   fleet_path_header (route_handler (with_trailing_slash req)) =
     fleet_path_header (route_handler req) \<and>
   (upgrade_header req \<noteq> Some (js ''websocket'') \<longrightarrow>
      route_handler (with_trailing_slash req) = route_handler req)"
proof -
  assume h: "\<not> subdomain_tenant req" "tenant_in_path (path req)" "path req \<noteq> js ''/tenant''"
  have m: "req_method (with_trailing_slash req) = req_method req"
          "upgrade_header (with_trailing_slash req) = upgrade_header req"
    by (simp_all add: with_trailing_slash_def)
  note c = route_handler_cong[OF derive_tenant_slash[OF h] derive_tenant_nonempty[OF h(1,2)] m]
  show ?thesis using c by simp
qed

lemma example_request_key: "owner_key (route_handler (example_request ''example.com'' ''/tenant/t1/a/b'')) = Some (js ''t1:/a/b'')"
  by code_simp

lemma example_request_tenant_in_path:
  "\<not> subdomain_tenant (example_request ''example.com'' ''/tenant/t1/a/b'')"
  "tenant_in_path (path (example_request ''example.com'' ''/tenant/t1/a/b''))"
  "path (example_request ''example.com'' ''/tenant/t1/a/b'') \<noteq> js ''/tenant''"
  by code_simp+

lemma trailing_slash_same_owner_example:
  "owner_key (route_handler (example_request ''example.com'' ''/tenant/t1/a/b'')) = Some (js ''t1:/a/b'') \<and>
   owner_key (route_handler (with_trailing_slash (example_request ''example.com'' ''/tenant/t1/a/b''))) =
     Some (js ''t1:/a/b'')"
  using trailing_slash_same_owner[OF example_request_tenant_in_path] example_request_key by simp

text \<open>
  Claim C9.  The subdomain branch does not rebuild the path; it forwards the path as it
  came.  For the host \<open>acme.example.com\<close> the paths \<open>/a/b\<close> and \<open>/a/b/\<close> reach the
  durable objects \<open>acme:/a/b\<close> and \<open>acme:/a/b/\<close>, two agents, for a \<open>POST\<close> request
  as well as for a WebSocket upgrade.
\<close>

theorem subdomain_trailing_slash_differs:
  "owner_key (route_handler (example_request ''acme.example.com'' ''/a/b'')) = Some (js ''acme:/a/b'') \<and>
   owner_key (route_handler (with_trailing_slash (example_request ''acme.example.com'' ''/a/b''))) =
     Some (js ''acme:/a/b/'') \<and>
   owner_key (route_handler (with_trailing_slash (example_request ''acme.example.com'' ''/a/b''))) \<noteq>
   owner_key (route_handler (example_request ''acme.example.com'' ''/a/b'')) \<and>
   owner_key (route_handler (example_upgrade ''acme.example.com'' ''/a/b'')) = Some (js ''acme:/a/b'') \<and>
   owner_key (route_handler (with_trailing_slash (example_upgrade ''acme.example.com'' ''/a/b''))) =
     Some (js ''acme:/a/b/'')"
  by code_simp

text \<open>
  The bare \<open>/tenant\<close> is read as a first segment, \<open>/tenant/\<close> as a prefix without an id.
\<close>

lemma bare_tenant_path:
  "owner_key (route_handler (example_request ''example.com'' ''/tenant'')) = Some (js ''tenant:/'') \<and>
   owner_key (route_handler (with_trailing_slash (example_request ''example.com'' ''/tenant''))) =
     Some (js ''demo:/tenant/'')"
  by code_simp

lemma first_segment_example:
  "owner_key (route_handler (example_request ''example.com'' ''/a/b'')) = Some (js ''a:/b'') \<and>
   owner_key (route_handler (with_trailing_slash (example_request ''example.com'' ''/a/b''))) = Some (js ''a:/b'')"
  by code_simp

subsection \<open>The conditions of the round trip hold in every agent that has loaded its path\<close>

text \<open>
  A new instance satisfies them, and stock updates, loading and saving keep them.
\<close>

lemma new_agent_round_trip_conditions:
  "keyed_by_sku (inventory (state new_agent))" "distinct (agents (state new_agent))"
  by (simp_all add: new_agent_def keyed_by_sku_def)

lemma keyed_by_sku_update:
  "keyed_by_sku m \<Longrightarrow> sku v = k \<Longrightarrow> keyed_by_sku (AList.update k v m)"
proof -
  assume k: "keyed_by_sku m" and v: "sku v = k"
  have "list_all (\<lambda>e. sku (snd e) = fst e) m \<Longrightarrow>
        list_all (\<lambda>e. sku (snd e) = fst e) (AList.update k v m)"
    using v by (induction m) auto
  then show ?thesis
    using k by (simp add: keyed_by_sku_def distinct_update)
qed

lemma updated_item_sku:
  "keyed_by_sku m \<Longrightarrow> sku (updated_item now upd m) = u_sku upd"
proof (cases "map_of m (u_sku upd)")
  case None
  then show ?thesis by (simp add: updated_item_def Let_def)
next
  case (Some i)
  assume "keyed_by_sku m"
  then have "sku i = u_sku upd"
    using keyed_lookup[OF _ map_of_SomeD[OF Some]] by simp
  then show ?thesis using Some by (simp add: updated_item_def Let_def)
qed

lemma keyed_by_sku_processStockUpdate:
  "keyed_by_sku m \<Longrightarrow> keyed_by_sku (fst (processStockUpdate env now upd loc d m))"
  by (simp add: processStockUpdate_inventory keyed_by_sku_update updated_item_sku)

lemma keyed_by_sku_restore:
  "keyed_by_sku m \<Longrightarrow> keyed_by_sku (fold (restore_item now) rows m)"
proof (induction rows arbitrary: m)
  case Nil
  then show ?case by simp
next
  case (Cons r rows)
  have "keyed_by_sku (restore_item now r m)"
    using Cons.prems by (simp add: restore_item_def Let_def keyed_by_sku_update)
  then show ?case by (simp add: Cons.IH)
qed

lemma keyed_by_sku_load:
  "keyed_by_sku (inventory (state a)) \<Longrightarrow>
   keyed_by_sku (inventory (state (loadStateFromStorage now d a)))"
  by (simp add: loadStateFromStorage_def Let_def keyed_by_sku_restore split: option.splits)

lemma update_key_set: "fst ` set (AList.update k v m) = insert k (fst ` set m)"
  by (induction m) auto

lemma restore_keys:
  "fst ` set (fold (restore_item now) rows m) = fst ` set m \<union> ii_sku ` set rows"
proof (induction rows arbitrary: m)
  case Nil
  show ?case by simp
next
  case (Cons r rows)
  have "fst ` set (restore_item now r m) = insert (ii_sku r) (fst ` set m)"
    by (simp add: restore_item_def Let_def update_key_set)
  then show ?case by (simp add: Cons.IH)
qed

lemma only_rows_of_load:
  "only_rows_of (inventory (state (loadStateFromStorage now d a)))
     (currentPath (loadStateFromStorage now d a)) d"
  by (auto simp: only_rows_of_def loadStateFromStorage_def Let_def restore_keys list_all_iff
      split: option.splits)

lemma only_rows_of_save:
  assumes "keyed_by_sku (inventory (state a))"
      and "only_rows_of (inventory (state a)) (currentPath a) d"
  shows "only_rows_of (inventory (state a)) (currentPath a) (saveState ts d a)"
proof -
  let ?m = "inventory (state a)"
  let ?p = "currentPath a"
  have rows: "set (filter (\<lambda>r. ii_location r = ?p) (inventory_items (saveState ts d a))) =
        (\<lambda>e. item_row ts ?p (snd e)) ` set ?m"
    unfolding saveState_inventory_items by (rule saved_rows_at[OF assms])
  have sk: "ii_sku (item_row ts ?p i) = sku i" for i
    by (simp add: item_row_def)
  show ?thesis
    unfolding only_rows_of_def list_all_iff
  proof (intro ballI impI)
    fix r
    assume r: "r \<in> set (inventory_items (saveState ts d a))" and l: "ii_location r = ?p"
    have "r \<in> set (filter (\<lambda>r. ii_location r = ?p) (inventory_items (saveState ts d a)))"
      using r l by simp
    then have "r \<in> (\<lambda>e. item_row ts ?p (snd e)) ` set ?m"
      by (simp only: rows)
    then obtain e where e: "e \<in> set ?m" "r = item_row ts ?p (snd e)"
      by blast
    have "(fst e, snd e) \<in> set ?m" using e(1) by simp
    then have "sku (snd e) = fst e"
      using keyed_lookup[OF assms(1)] by blast
    then have "ii_sku r = fst e" using e(2) sk by simp
    then show "ii_sku r \<in> set (map fst ?m)"
      using e(1) by (simp add: rev_image_eqI)
  qed
qed

lemma set_add_distinct: "distinct xs \<Longrightarrow> distinct (set_add x xs)"
  by (simp add: set_add_def)

lemma new_Set_is_distinct: "distinct (new_Set xs)"
  by (simp add: new_Set_def)

lemma load_distinct_agents:
  "distinct (agents (state a)) \<Longrightarrow> distinct (agents (state (loadStateFromStorage now d a)))"
  by (simp add: loadStateFromStorage_def Let_def new_Set_is_distinct split: option.splits)

text \<open>
  \<open>handleDeleteSubtree\<close> followed by a load into a new instance, for every agent: the
  children and the counter are cleared, every subscription is closed, and the inventory
  comes back as it was.
\<close>

lemma handleDeleteSubtree_then_load:
  assumes k: "keyed_by_sku (inventory (state a))"
      and o: "only_rows_of (inventory (state a)) (currentPath a) d"
      and r: "handleDeleteSubtree ts d a = (a1, d1, es, status)"
      and a': "a' = loadStateFromStorage now d1 (new_agent\<lparr>currentPath := currentPath a\<rparr>)"
  shows "agents (state a1) = []" and "counter (state a1) = 0" and "websockets (state a1) = []"
    and "es = map (\<lambda>ws. Close (ws_id ws)) (websockets (state a))"
    and "agents (state a') = []" and "counter (state a') = 0"
    and "map_of (inventory (state a')) key =
         map_option (\<lambda>i. i\<lparr>lastUpdated := now\<rparr>) (map_of (inventory (state a)) key)"
proof -
  let ?a = "a\<lparr>state := (state a)\<lparr>agents := [], counter := 0, messages := []\<rparr>\<rparr>"
  have r': "a1 = ?a\<lparr>state := (state ?a)\<lparr>websockets := []\<rparr>\<rparr>" "d1 = saveState ts d ?a"
           "es = map (\<lambda>ws. Close (ws_id ws)) (websockets (state a))"
    using r by (simp_all add: handleDeleteSubtree_result)
  have ok: "keyed_by_sku (inventory (state ?a))"
    "only_rows_of (inventory (state ?a)) (currentPath ?a) d"
    "distinct (agents (state ?a))"
    using k o by simp_all
  have a'': "a' = loadStateFromStorage now (saveState ts d ?a) (new_agent\<lparr>currentPath := currentPath ?a\<rparr>)"
    using a' r'(2) by simp
  note l = load_after_save[OF ok a'']
  show "agents (state a1) = []" "counter (state a1) = 0" "websockets (state a1) = []"
    using r'(1) by simp_all
  show "es = map (\<lambda>ws. Close (ws_id ws)) (websockets (state a))" by (rule r'(3))
  show "agents (state a') = []" using l(2) by simp
  show "counter (state a') = 0" using l(1) by simp
  show "map_of (inventory (state a')) key =
         map_option (\<lambda>i. i\<lparr>lastUpdated := now\<rparr>) (map_of (inventory (state a)) key)"
    using l(4)[of key] by simp
qed

end
